theory Spec2Isabelle
  imports Complex_Main "HOL-Library.Sublist"
begin

section \<open>Strings and values of the host language\<close>

text \<open>
  A string of the program is a \<^typ>\<open>string\<close>: the list of its characters. The
  character classes of the regular expressions the program uses are the ASCII ones:
  \<open>\d\<close> is \<open>[0-9]\<close>, \<open>\s\<close> is tab, line feed, vertical tab, form feed, carriage
  return and space, and case folding acts on \<open>A-Z\<close> and \<open>a-z\<close> only.
\<close>

definition isDigit :: "char \<Rightarrow> bool" where
  "isDigit c = (c \<in> set ''0123456789'')"

definition isSpace :: "char \<Rightarrow> bool" where
  "isSpace c = (c \<in> {CHR 0x09, CHR 0x0A, CHR 0x0B, CHR 0x0C, CHR 0x0D, CHR '' ''})"

definition trimStart :: "string \<Rightarrow> string" where
  "trimStart s = dropWhile isSpace s"

definition trim :: "string \<Rightarrow> string" where
  "trim s = rev (dropWhile isSpace (rev (dropWhile isSpace s)))"

definition startsWith :: "string \<Rightarrow> string \<Rightarrow> bool" where
  "startsWith s p = (take (length p) s = p)"

definition upperLetters :: string where
  "upperLetters = ''ABCDEFGHIJKLMNOPQRSTUVWXYZ''"

definition lowerLetters :: string where
  "lowerLetters = ''abcdefghijklmnopqrstuvwxyz''"

definition toLowerChar :: "char \<Rightarrow> char" where
  "toLowerChar c = (case map_of (zip upperLetters lowerLetters) c of Some l \<Rightarrow> l | None \<Rightarrow> c)"

definition toUpperChar :: "char \<Rightarrow> char" where
  "toUpperChar c = (case map_of (zip lowerLetters upperLetters) c of Some u \<Rightarrow> u | None \<Rightarrow> c)"

definition toLowerCase :: "string \<Rightarrow> string" where
  "toLowerCase s = map toLowerChar s"

definition toUpperCase :: "string \<Rightarrow> string" where
  "toUpperCase s = map toUpperChar s"

text \<open>
  What a function of the program can do instead of returning a value: throw the host's
  \<open>NodeOperationError\<close> with a message, throw a \<open>TypeError\<close> (a method called on
  \<open>undefined\<close>), or never leave a loop. A result is \<open>Inl\<close> of one of these or \<open>Inr\<close> of
  the value returned.
\<close>

datatype error = NodeOperationError string | TypeError | LoopForever

text \<open>
  A dynamically typed value, as far as the functions below read one: whether it is a
  string, \<open>null\<close> or \<open>undefined\<close>, and for every other value (a number, a boolean, an
  object, an array) its truthiness and its rendering by \<open>String(...)\<close>.
\<close>

datatype jsval = JUndefined | JNull | JStr string | JOther bool string

fun truthy :: "jsval \<Rightarrow> bool" where
  "truthy JUndefined = False"
| "truthy JNull = False"
| "truthy (JStr s) = (s \<noteq> [])"
| "truthy (JOther t s) = t"

text \<open>\<open>v || ''\<close>\<close>

definition orEmpty :: "jsval \<Rightarrow> jsval" where
  "orEmpty v = (if truthy v then v else JStr [])"

text \<open>
  A value of type \<open>number\<close> that the program receives from outside: a finite number (an
  exact rational here), one of the two infinities, or \<open>NaN\<close>. \<open>numLess a b\<close> is \<open>a < b\<close>
  and \<open>numGreaterEq a b\<close> is \<open>a >= b\<close>; every comparison with \<open>NaN\<close> is false.
\<close>

datatype jsnumber = Num rat | PosInfinity | NegInfinity | NaN

fun numLess :: "jsnumber \<Rightarrow> jsnumber \<Rightarrow> bool" where
  "numLess NaN b = False"
| "numLess a NaN = False"
| "numLess a NegInfinity = False"
| "numLess NegInfinity b = True"
| "numLess PosInfinity b = False"
| "numLess (Num a) PosInfinity = True"
| "numLess (Num a) (Num b) = (a < b)"

definition numGreaterEq :: "jsnumber \<Rightarrow> jsnumber \<Rightarrow> bool" where
  "numGreaterEq a b = (a \<noteq> NaN \<and> b \<noteq> NaN \<and> \<not> numLess a b)"

section \<open>SimilarityEngine\<close>

text \<open>
  Numbers are exact rationals: the rounding of the program's floating-point arithmetic
  is not modelled. Arrays are lists read with \<open>!\<close> and written with \<open>[i := v]\<close>; every
  index below is within the array (for the one loop that can leave its array, see
  \<open>skipUnmatched\<close>).
\<close>

text \<open>The inner loop of \<open>levenshteinDistance\<close>, \<open>j\<close> from 1 to \<open>shorter.length\<close>;
  \<open>c\<close> is \<open>longer[i - 1]\<close>.\<close>

function levInner :: "char \<Rightarrow> string \<Rightarrow> nat list \<Rightarrow> nat list \<Rightarrow> nat \<Rightarrow> nat list" where
  "levInner c shorter previousRow currentRow j =
     (if j \<le> length shorter then
        let cost = (if c = shorter ! (j - 1) then 0 else 1) in
        levInner c shorter previousRow
          (currentRow[j := min (currentRow ! (j - 1) + 1)
                             (min (previousRow ! j + 1) (previousRow ! (j - 1) + cost))])
          (j + 1)
      else currentRow)"
  by pat_completeness auto
termination
  by (relation "measure (\<lambda>(c, shorter, previousRow, currentRow, j). Suc (length shorter) - j)") auto

declare levInner.simps [simp del]

text \<open>The outer loop, \<open>i\<close> from 1 to \<open>longer.length\<close>; the two rows are swapped after
  each pass, and the result is read from \<open>previousRow\<close>.\<close>

function levOuter :: "string \<Rightarrow> string \<Rightarrow> nat list \<Rightarrow> nat list \<Rightarrow> nat \<Rightarrow> nat list" where
  "levOuter longer shorter previousRow currentRow i =
     (if i \<le> length longer then
        levOuter longer shorter
          (levInner (longer ! (i - 1)) shorter previousRow (currentRow[0 := i]) 1)
          previousRow (i + 1)
      else previousRow)"
  by pat_completeness auto
termination
  by (relation "measure (\<lambda>(longer, shorter, previousRow, currentRow, i). Suc (length longer) - i)") auto

declare levOuter.simps [simp del]

definition levenshteinDistance :: "string \<Rightarrow> string \<Rightarrow> nat" where
  "levenshteinDistance str1 str2 =
     (let s1 = trim (toLowerCase str1); s2 = trim (toLowerCase str2) in
      if s1 = s2 then 0
      else if length s1 = 0 then length s2
      else if length s2 = 0 then length s1
      else
        let (shorter, longer) = (if length s1 \<le> length s2 then (s1, s2) else (s2, s1));
            previousRow = [0 ..< length shorter + 1];
            currentRow = replicate (length shorter + 1) 0
        in levOuter longer shorter previousRow currentRow 1 ! length shorter)"

definition levenshteinSimilarity :: "string \<Rightarrow> string \<Rightarrow> rat" where
  "levenshteinSimilarity str1 str2 =
     (if str1 = [] \<and> str2 = [] then 1
      else if str1 = [] \<or> str2 = [] then 0
      else
        let distance = levenshteinDistance str1 str2;
            maxLength = max (length str1) (length str2)
        in if maxLength = 0 then 1 else 1 - of_nat distance / of_nat maxLength)"

text \<open>The inner loop of the matching phase of \<open>jaroSimilarity\<close>: the first \<open>j\<close> in
  \<open>start..<end\<close> that is unused and carries the character \<open>s1[i]\<close>, if there is one.\<close>

function findMatch :: "string \<Rightarrow> string \<Rightarrow> bool list \<Rightarrow> nat \<Rightarrow> nat \<Rightarrow> nat \<Rightarrow> nat option" where
  "findMatch s1 s2 s2Matches i j end =
     (if j < end then
        (if s2Matches ! j \<or> s1 ! i \<noteq> s2 ! j then findMatch s1 s2 s2Matches i (j + 1) end
         else Some j)
      else None)"
  by pat_completeness auto
termination
  by (relation "measure (\<lambda>(s1, s2, s2Matches, i, j, end). end - j)") auto

declare findMatch.simps [simp del]

function matchLoop ::
  "string \<Rightarrow> string \<Rightarrow> nat \<Rightarrow> nat \<Rightarrow> bool list \<times> bool list \<times> nat \<Rightarrow> bool list \<times> bool list \<times> nat" where
  "matchLoop s1 s2 matchWindowSize i (s1Matches, s2Matches, matches) =
     (if i < length s1 then
        let start = nat (max 0 (int i - int matchWindowSize));
            end = min (i + matchWindowSize + 1) (length s2)
        in (case findMatch s1 s2 s2Matches i start end of
              None \<Rightarrow> matchLoop s1 s2 matchWindowSize (i + 1) (s1Matches, s2Matches, matches)
            | Some j \<Rightarrow>
                matchLoop s1 s2 matchWindowSize (i + 1)
                  (s1Matches[i := True], s2Matches[j := True], matches + 1))
      else (s1Matches, s2Matches, matches))"
  by pat_completeness auto
termination
  by (relation "measure (\<lambda>(s1, s2, w, i, st). length s1 - i)") auto

declare matchLoop.simps [simp del]

text \<open>\<open>while (!s2Matches[k]) k++\<close>: past the end of the array the read is \<open>undefined\<close>, its
  negation is true, and the loop never exits.\<close>

function skipUnmatched :: "bool list \<Rightarrow> nat \<Rightarrow> error + nat" where
  "skipUnmatched s2Matches k =
     (if k < length s2Matches then
        (if \<not> s2Matches ! k then skipUnmatched s2Matches (k + 1) else Inr k)
      else Inl LoopForever)"
  by pat_completeness auto
termination
  by (relation "measure (\<lambda>(s2Matches, k). length s2Matches - k)") auto

declare skipUnmatched.simps [simp del]

function transLoop ::
  "string \<Rightarrow> string \<Rightarrow> bool list \<Rightarrow> bool list \<Rightarrow> nat \<Rightarrow> nat \<Rightarrow> nat \<Rightarrow> error + nat" where
  "transLoop s1 s2 s1Matches s2Matches i k transpositions =
     (if i < length s1 then
        (if \<not> s1Matches ! i then transLoop s1 s2 s1Matches s2Matches (i + 1) k transpositions
         else
           (case skipUnmatched s2Matches k of
              Inl e \<Rightarrow> Inl e
            | Inr k' \<Rightarrow>
                transLoop s1 s2 s1Matches s2Matches (i + 1) (k' + 1)
                  (if s1 ! i \<noteq> s2 ! k' then transpositions + 1 else transpositions)))
      else Inr transpositions)"
  by pat_completeness auto
termination
  by (relation "measure (\<lambda>(s1, s2, m1, m2, i, k, t). length s1 - i)") auto

declare transLoop.simps [simp del]

definition jaroSimilarity :: "string \<Rightarrow> string \<Rightarrow> error + rat" where
  "jaroSimilarity str1 str2 =
     (let s1 = trim (toLowerCase str1); s2 = trim (toLowerCase str2) in
      if s1 = s2 then Inr 1
      else if length s1 = 0 \<or> length s2 = 0 then Inr 0
      else
        let matchWindow = int (max (length s1) (length s2)) div 2 - 1;
            matchWindowSize = nat (max 0 matchWindow);
            (s1Matches, s2Matches, matches) =
               matchLoop s1 s2 matchWindowSize 0
                 (replicate (length s1) False, replicate (length s2) False, 0)
        in if matches = 0 then Inr 0
           else
             (case transLoop s1 s2 s1Matches s2Matches 0 0 0 of
                Inl e \<Rightarrow> Inl e
              | Inr transpositions \<Rightarrow>
                  Inr ((of_nat matches / of_nat (length s1) + of_nat matches / of_nat (length s2)
                        + (of_nat matches - of_nat transpositions / 2) / of_nat matches) / 3)))"

text \<open>The prefix loop of \<open>jaroWinklerSimilarity\<close>, with its \<open>break\<close>.\<close>

function prefixLoop :: "string \<Rightarrow> string \<Rightarrow> nat \<Rightarrow> nat \<Rightarrow> nat \<Rightarrow> nat" where
  "prefixLoop s1 s2 maxPrefixLength i prefixLength =
     (if i < maxPrefixLength then
        (if s1 ! i = s2 ! i then prefixLoop s1 s2 maxPrefixLength (i + 1) (prefixLength + 1)
         else prefixLength)
      else prefixLength)"
  by pat_completeness auto
termination
  by (relation "measure (\<lambda>(s1, s2, m, i, p). m - i)") auto

declare prefixLoop.simps [simp del]

definition jaroWinklerSimilarity :: "string \<Rightarrow> string \<Rightarrow> rat \<Rightarrow> error + rat" where
  "jaroWinklerSimilarity str1 str2 prefixScale =
     (case jaroSimilarity str1 str2 of
        Inl e \<Rightarrow> Inl e
      | Inr jaroSim \<Rightarrow>
          if jaroSim = 0 then Inr 0
          else
            let s1 = trim (toLowerCase str1); s2 = trim (toLowerCase str2);
                maxPrefixLength = min 4 (min (length s1) (length s2));
                prefixLength = prefixLoop s1 s2 maxPrefixLength 0 0;
                boundedScale = min prefixScale (1 / 4)
            in Inr (jaroSim + of_nat prefixLength * boundedScale * (1 - jaroSim)))"

text \<open>\<open>fuzzyMatch\<close> calls \<open>jaroWinklerSimilarity\<close> with two arguments: the prefix scale is
  the default of the parameter, 0.1.\<close>

definition fuzzyMatch :: "string \<Rightarrow> string \<Rightarrow> error + rat" where
  "fuzzyMatch str1 str2 =
     (if length str1 < 10 \<and> length str2 < 10 then jaroWinklerSimilarity str1 str2 (1 / 10)
      else Inr (levenshteinSimilarity str1 str2))"

text \<open>The number of marked positions of a match array.\<close>

definition cnt :: "bool list \<Rightarrow> nat" where
  "cnt xs = length (filter id xs)"

text \<open>The length of the common prefix of two strings, for the statement of the
  Jaro-Winkler boost: the number of leading positions at which they agree.\<close>

definition commonPrefixLength :: "string \<Rightarrow> string \<Rightarrow> nat" where
  "commonPrefixLength a b = length (takeWhile (\<lambda>(x, y). x = y) (zip a b))"

section \<open>Deduplicator\<close>

text \<open>
  A record of the input is read only by \<open>items[i][field]\<close>: it is a function from field
  names to values, \<open>JUndefined\<close> where the record has no such field.
\<close>

type_synonym jsrecord = "string \<Rightarrow> jsval"

record DuplicateGroup =
  keepIndex :: nat
  duplicateIndices :: "nat list"
  similarityScores :: "rat list"

text \<open>\<open>v ?? d\<close> and \<open>String(v)\<close>\<close>

fun nullishOr :: "jsval \<Rightarrow> jsval \<Rightarrow> jsval" where
  "nullishOr JUndefined d = d"
| "nullishOr JNull d = d"
| "nullishOr v d = v"

fun jsString :: "jsval \<Rightarrow> string" where
  "jsString JUndefined = ''undefined''"
| "jsString JNull = ''null''"
| "jsString (JStr s) = s"
| "jsString (JOther t s) = s"

text \<open>The loop over \<open>fieldsToCheck\<close> for one pair of records, carrying
  \<open>totalSimilarity\<close> and \<open>fieldCount\<close>.\<close>

fun fieldLoop :: "jsrecord \<Rightarrow> jsrecord \<Rightarrow> string list \<Rightarrow> rat \<times> nat \<Rightarrow> error + rat \<times> nat" where
  "fieldLoop item1 item2 [] (totalSimilarity, fieldCount) = Inr (totalSimilarity, fieldCount)"
| "fieldLoop item1 item2 (field # rest) (totalSimilarity, fieldCount) =
     (let value1 = jsString (nullishOr (item1 field) (JStr []));
          value2 = jsString (nullishOr (item2 field) (JStr []))
      in if value1 = [] \<and> value2 = [] then fieldLoop item1 item2 rest (totalSimilarity, fieldCount)
         else
           (case fuzzyMatch value1 value2 of
              Inl e \<Rightarrow> Inl e
            | Inr v \<Rightarrow> fieldLoop item1 item2 rest (totalSimilarity + v, fieldCount + 1)))"

text \<open>The average of one pair, as the body of the inner loop computes it.\<close>

definition averageSimilarity :: "jsrecord \<Rightarrow> jsrecord \<Rightarrow> string list \<Rightarrow> error + rat" where
  "averageSimilarity item1 item2 fieldsToCheck =
     (case fieldLoop item1 item2 fieldsToCheck (0, 0) of
        Inl e \<Rightarrow> Inl e
      | Inr (totalSimilarity, fieldCount) \<Rightarrow>
          Inr (if fieldCount > 0 then totalSimilarity / of_nat fieldCount else 0))"

text \<open>The loop over \<open>j\<close> of \<open>findFuzzyDuplicates\<close>, carrying the current group and the
  set of processed indices.\<close>

function jLoop ::
  "jsrecord list \<Rightarrow> string list \<Rightarrow> jsnumber \<Rightarrow> nat \<Rightarrow> nat \<Rightarrow> DuplicateGroup \<times> nat set
     \<Rightarrow> error + DuplicateGroup \<times> nat set" where
  "jLoop items fieldsToCheck threshold i j (currentGroup, processedIndices) =
     (if j < length items then
        (if j \<in> processedIndices
         then jLoop items fieldsToCheck threshold i (j + 1) (currentGroup, processedIndices)
         else
           (case averageSimilarity (items ! i) (items ! j) fieldsToCheck of
              Inl e \<Rightarrow> Inl e
            | Inr average \<Rightarrow>
                if numGreaterEq (Num average) threshold
                then jLoop items fieldsToCheck threshold i (j + 1)
                       (currentGroup\<lparr>duplicateIndices := duplicateIndices currentGroup @ [j],
                                     similarityScores := similarityScores currentGroup @ [average]\<rparr>,
                        insert j processedIndices)
                else jLoop items fieldsToCheck threshold i (j + 1) (currentGroup, processedIndices)))
      else Inr (currentGroup, processedIndices))"
  by pat_completeness auto
termination
  by (relation "measure (\<lambda>(items, fieldsToCheck, threshold, i, j, st). length items - j)") auto

declare jLoop.simps [simp del]

text \<open>The loop over \<open>i\<close>, carrying \<open>duplicateGroups\<close> and \<open>processedIndices\<close>.\<close>

function iLoop ::
  "jsrecord list \<Rightarrow> string list \<Rightarrow> jsnumber \<Rightarrow> nat \<Rightarrow> DuplicateGroup list \<times> nat set
     \<Rightarrow> error + DuplicateGroup list" where
  "iLoop items fieldsToCheck threshold i (duplicateGroups, processedIndices) =
     (if i < length items then
        (if i \<in> processedIndices
         then iLoop items fieldsToCheck threshold (i + 1) (duplicateGroups, processedIndices)
         else
           (case jLoop items fieldsToCheck threshold i (i + 1)
                   (\<lparr>keepIndex = i, duplicateIndices = [], similarityScores = []\<rparr>,
                    processedIndices) of
              Inl e \<Rightarrow> Inl e
            | Inr (currentGroup, processedIndices') \<Rightarrow>
                iLoop items fieldsToCheck threshold (i + 1)
                  (if length (duplicateIndices currentGroup) > 0
                   then duplicateGroups @ [currentGroup] else duplicateGroups,
                   processedIndices')))
      else Inr duplicateGroups)"
  by pat_completeness auto
termination
  by (relation "measure (\<lambda>(items, fieldsToCheck, threshold, i, st). length items - i)") auto

declare iLoop.simps [simp del]

definition findFuzzyDuplicates ::
  "jsrecord list \<Rightarrow> string list \<Rightarrow> jsnumber \<Rightarrow> error + DuplicateGroup list" where
  "findFuzzyDuplicates items fieldsToCheck threshold =
     iLoop items fieldsToCheck threshold 0 ([], {})"

record DeduplicateResult =
  deduplicated :: "jsrecord list"
  removedCount :: nat
  duplicateGroups :: "DuplicateGroup list"

definition deduplicateFuzzy ::
  "jsrecord list \<Rightarrow> string list \<Rightarrow> jsnumber \<Rightarrow> error + DeduplicateResult" where
  "deduplicateFuzzy items fieldsToCheck threshold =
     (case findFuzzyDuplicates items fieldsToCheck threshold of
        Inl e \<Rightarrow> Inl e
      | Inr groups \<Rightarrow>
          let indicesToRemove =
                fold (\<lambda>group removed. fold insert (duplicateIndices group) removed) groups {}
          in Inr \<lparr>deduplicated =
                     map (\<lambda>index. items ! index)
                       (filter (\<lambda>index. index \<notin> indicesToRemove) [0 ..< length items]),
                   removedCount = card indicesToRemove,
                   duplicateGroups = groups\<rparr>)"

text \<open>
  The handler \<open>executeDeduplicateFuzzy\<close> of the node. Its parameters
  \<open>fieldsToCheck\<close>, \<open>fuzzyThreshold\<close> and \<open>outputDuplicateInfo\<close> come from the host
  (the threshold is whatever number the host resolves the parameter to, \<open>NaN\<close>
  included); the items are given by their \<open>json\<close> records. \<open>split\<close> is the split of a string at every
  occurrence of one character.
\<close>

fun split :: "char \<Rightarrow> string \<Rightarrow> string list" where
  "split c [] = [[]]"
| "split c (x # xs) =
     (if x = c then [] # split c xs
      else (case split c xs of [] \<Rightarrow> [[x]] | p # ps \<Rightarrow> (x # p) # ps))"



subsection \<open>The deduplication policy in the words of the specification\<close>

text \<open>
  These definitions follow the specification, not the code; the properties below
  compare the code with them. \<open>fuzzyMatchValue\<close> is the value \<open>fuzzyMatch\<close> returns
  (it always returns one, see \<open>fuzzyMatch_returns\<close>). \<open>specAverage\<close> averages it over
  the named fields, leaving out the fields where both values are empty after string
  coercion, and is 0 when every field is left out.
\<close>

definition fuzzyMatchValue :: "string \<Rightarrow> string \<Rightarrow> rat" where
  "fuzzyMatchValue a b = (case fuzzyMatch a b of Inr v \<Rightarrow> v | Inl e \<Rightarrow> 0)"

definition fieldString :: "jsrecord \<Rightarrow> string \<Rightarrow> string" where
  "fieldString item field = jsString (nullishOr (item field) (JStr []))"

definition comparedFields :: "jsrecord \<Rightarrow> jsrecord \<Rightarrow> string list \<Rightarrow> string list" where
  "comparedFields item1 item2 fieldsToCheck =
     filter (\<lambda>f. \<not> (fieldString item1 f = [] \<and> fieldString item2 f = [])) fieldsToCheck"

definition specAverage :: "jsrecord \<Rightarrow> jsrecord \<Rightarrow> string list \<Rightarrow> rat" where
  "specAverage item1 item2 fieldsToCheck =
     (let compared = comparedFields item1 item2 fieldsToCheck in
      if compared = [] then 0
      else sum_list (map (\<lambda>f. fuzzyMatchValue (fieldString item1 f) (fieldString item2 f)) compared)
             / of_nat (length compared))"

text \<open>
  The records after position \<open>j\<close> (from \<open>j\<close> on) that are unprocessed and whose average
  with record \<open>i\<close> is at least the threshold (\<open>numGreaterEq\<close>: no average is at least
  \<open>NaN\<close>).
\<close>

definition laterDuplicates ::
  "jsrecord list \<Rightarrow> string list \<Rightarrow> jsnumber \<Rightarrow> nat \<Rightarrow> nat \<Rightarrow> nat set \<Rightarrow> nat list" where
  "laterDuplicates items fieldsToCheck threshold i j processed =
     filter (\<lambda>k. k \<notin> processed \<and>
                 numGreaterEq (Num (specAverage (items ! i) (items ! k) fieldsToCheck)) threshold)
       [j ..< length items]"

text \<open>
  One pass with a set of processed indices: each unprocessed record \<open>i\<close> is compared with
  every later unprocessed record \<open>j\<close>; \<open>j\<close> joins the group of \<open>i\<close> and is marked
  processed exactly when the average is at least the threshold. A group is reported
  when it has a duplicate.
\<close>

function specGroups ::
  "jsrecord list \<Rightarrow> string list \<Rightarrow> jsnumber \<Rightarrow> nat \<Rightarrow> nat set \<Rightarrow> DuplicateGroup list" where
  "specGroups items fieldsToCheck threshold i processed =
     (if i < length items then
        (if i \<in> processed then specGroups items fieldsToCheck threshold (i + 1) processed
         else
           let dups = laterDuplicates items fieldsToCheck threshold i (i + 1) processed
           in (if dups = [] then []
               else [\<lparr>keepIndex = i, duplicateIndices = dups,
                      similarityScores =
                        map (\<lambda>j. specAverage (items ! i) (items ! j) fieldsToCheck) dups\<rparr>])
              @ specGroups items fieldsToCheck threshold (i + 1) (processed \<union> set dups))
      else [])"
  by pat_completeness auto
termination
  by (relation "measure (\<lambda>(items, fieldsToCheck, threshold, i, processed). length items - i)") auto

declare specGroups.simps [simp del]


text \<open>All indices of a group, and the indices that some group lists as duplicates.\<close>

definition groupIndices :: "DuplicateGroup \<Rightarrow> nat list" where
  "groupIndices g = keepIndex g # duplicateIndices g"

definition duplicateSet :: "DuplicateGroup list \<Rightarrow> nat set" where
  "duplicateSet groups = (\<Union>g \<in> set groups. set (duplicateIndices g))"

text \<open>The example of the specification: three records with a \<open>name\<close> field.\<close>

definition exampleRecords :: "jsrecord list" where
  "exampleRecords =
     [(\<lambda>f. if f = ''name'' then JStr ''John Smith'' else JUndefined),
      (\<lambda>f. if f = ''name'' then JStr ''Jon Smith'' else JUndefined),
      (\<lambda>f. if f = ''name'' then JStr ''Jane Doe'' else JUndefined)]"

section \<open>PhoneNormalizer\<close>

text \<open>
  \<open>cleanPhoneNumber\<close> of \<open>utils.ts\<close>, branch by branch. The first guard returns
  \<open>phone || ''\<close> for the empty string and for every value that is not a string.
\<close>

fun cleanPhoneNumber :: "jsval \<Rightarrow> string \<Rightarrow> jsval" where
  "cleanPhoneNumber (JStr phone) defaultCountryCode =
     (if phone = [] then JStr []
      else
        let hasPlus = startsWith (trim phone) ''+'';
            digitsOnly = filter isDigit phone
        in
          if length digitsOnly = 0 then JStr phone
          else if length digitsOnly > 15 then JStr phone
          else if hasPlus then JStr (''+'' @ digitsOnly)
          else if length digitsOnly = 11 \<and> startsWith digitsOnly ''1''
            then JStr (''+'' @ digitsOnly)
          else if length digitsOnly = 10
            then JStr (''+'' @ defaultCountryCode @ digitsOnly)
          else if length digitsOnly = 11 \<and> startsWith digitsOnly ''0''
            then JStr (''+44'' @ drop 1 digitsOnly)
          else if length digitsOnly = 12 \<and> startsWith digitsOnly ''44''
            then JStr (''+'' @ digitsOnly)
          else if 7 \<le> length digitsOnly \<and> length digitsOnly \<le> 10
            then JStr (''+'' @ defaultCountryCode @ digitsOnly)
          else JStr (''+'' @ digitsOnly))"
| "cleanPhoneNumber v defaultCountryCode = orEmpty v"

text \<open>The shape \<open>+digits\<close> of a result: a string that is one \<open>+\<close> and then digits only.\<close>

fun isPlusDigits :: "jsval \<Rightarrow> bool" where
  "isPlusDigits (JStr (c # ds)) = (c = CHR ''+'' \<and> list_all isDigit ds)"
| "isPlusDigits v = False"

section \<open>PhoneParser\<close>

record ParsedPhoneNumber =
  original :: jsval
  e164 :: string
  national :: string
  international :: string
  countryCode :: string
  areaCode :: string
  localNumber :: string
  extension :: string
  isValid :: bool

text \<open>\<open>s.slice(a, b)\<close> for indices that are not negative; \<open>s.slice(a)\<close> is \<open>drop a s\<close>.\<close>

definition slice :: "nat \<Rightarrow> nat \<Rightarrow> string \<Rightarrow> string" where
  "slice a b s = take (b - a) (drop a s)"

text \<open>\<open>isValidE164\<close>: the test of \<open>/^\+[1-9]\d{1,14}$/\<close>.\<close>

fun isValidE164 :: "string \<Rightarrow> bool" where
  "isValidE164 (p # d # ds) =
     (p = CHR ''+'' \<and> d \<in> set ''123456789'' \<and> list_all isDigit ds \<and>
      1 \<le> length ds \<and> length ds \<le> 14)"
| "isValidE164 s = False"

text \<open>
  The extension pattern \<open>/(?:ext\.?|x|extension)\s*(\d+)/i\<close>, and the unit pattern of
  \<open>parseAddress\<close>, which has the same shape. \<open>spacesThenRun cls\<close> is \<open>\s*([cls]+)\<close>
  at the start of a string: the text matched and the text of the group.
  \<open>keywordThenRun\<close> is one alternative: the keyword in any case, a dot after it when
  the alternative has \<open>\.?\<close> and the dot is there, then \<open>\s*([cls]+)\<close>. (Neither a
  dot nor a whitespace character is in one of the two classes, so giving back the dot or
  whitespace cannot make a failed match succeed.) \<open>firstAlternative\<close> tries the
  alternatives in their order at the start of a string; \<open>matchExtension\<close> is the
  leftmost match, as \<open>phone.match\<close> finds it.
\<close>

definition spacesThenRun :: "(char \<Rightarrow> bool) \<Rightarrow> string \<Rightarrow> (string \<times> string) option" where
  "spacesThenRun cls s =
     (let spaces = takeWhile isSpace s;
          run = takeWhile cls (dropWhile isSpace s)
      in if run = [] then None else Some (spaces @ run, run))"

definition keywordThenRun ::
  "(char \<Rightarrow> bool) \<Rightarrow> string \<times> bool \<Rightarrow> string \<Rightarrow> (string \<times> string) option" where
  "keywordThenRun cls alternative s =
     (let (keyword, optionalDot) = alternative in
      if toLowerCase (take (length keyword) s) = keyword then
        let rest = drop (length keyword) s;
            dot = (if optionalDot \<and> startsWith rest ''.'' then ''.'' else [])
        in (case spacesThenRun cls (drop (length dot) rest) of
              None \<Rightarrow> None
            | Some (matched, run) \<Rightarrow>
                Some (take (length keyword) s @ dot @ matched, run))
      else None)"

fun firstAlternative ::
  "(char \<Rightarrow> bool) \<Rightarrow> (string \<times> bool) list \<Rightarrow> string \<Rightarrow> (string \<times> string) option" where
  "firstAlternative cls [] s = None"
| "firstAlternative cls (alternative # alternatives) s =
     (case keywordThenRun cls alternative s of
        Some m \<Rightarrow> Some m
      | None \<Rightarrow> firstAlternative cls alternatives s)"

definition extensionAt :: "string \<Rightarrow> (string \<times> string) option" where
  "extensionAt s =
     firstAlternative isDigit [(''ext'', True), (''x'', False), (''extension'', False)] s"

fun matchExtension :: "string \<Rightarrow> (string \<times> string) option" where
  "matchExtension [] = None"
| "matchExtension (c # cs) =
     (case extensionAt (c # cs) of
        Some m \<Rightarrow> Some m
      | None \<Rightarrow> matchExtension cs)"

text \<open>\<open>s.replace(pattern, replacement)\<close> with a string pattern: the first occurrence.\<close>

fun replaceFirst :: "string \<Rightarrow> string \<Rightarrow> string \<Rightarrow> string" where
  "replaceFirst pattern replacement [] = (if pattern = [] then replacement else [])"
| "replaceFirst pattern replacement (c # cs) =
     (if startsWith (c # cs) pattern then replacement @ drop (length pattern) (c # cs)
      else c # replaceFirst pattern replacement cs)"

text \<open>The first step of \<open>parsePhoneNumber\<close>: the extension found, and the string that
  is left for the digit classification.\<close>

definition extractExtension :: "string \<Rightarrow> string \<times> string" where
  "extractExtension phone =
     (case matchExtension phone of
        None \<Rightarrow> ([], phone)
      | Some (matched, digits) \<Rightarrow> (digits, trim (replaceFirst matched [] phone)))"

fun parsePhoneNumber :: "jsval \<Rightarrow> string \<Rightarrow> ParsedPhoneNumber" where
  "parsePhoneNumber (JStr phone0) defaultCountryCode =
     (let result = \<lparr>original = orEmpty (JStr phone0), e164 = [], national = [],
                     international = [], countryCode = [], areaCode = [], localNumber = [],
                     extension = [], isValid = False\<rparr>
      in if phone0 = [] then result
         else
           let (ext, phone) = extractExtension phone0;
               result = result\<lparr>extension := ext\<rparr>;
               hasPlus = startsWith (trim phone) ''+'';
               digitsOnly = filter isDigit phone
           in if length digitsOnly < 7 \<or> length digitsOnly > 15 then result
              else
                let (cc, nationalNumber) =
                      (if hasPlus then
                         (if startsWith digitsOnly ''1'' \<and> length digitsOnly = 11
                            then (''1'', drop 1 digitsOnly)
                          else if startsWith digitsOnly ''44'' \<and> length digitsOnly \<ge> 12
                            then (''44'', drop 2 digitsOnly)
                          else if startsWith digitsOnly ''91'' \<and> length digitsOnly = 12
                            then (''91'', drop 2 digitsOnly)
                          else if startsWith digitsOnly ''86'' \<and> length digitsOnly = 13
                            then (''86'', drop 2 digitsOnly)
                          else if startsWith digitsOnly ''49'' \<and> length digitsOnly \<ge> 11
                            then (''49'', drop 2 digitsOnly)
                          else if length digitsOnly > 10
                            then (let ccLength = length digitsOnly - 10
                                  in (slice 0 (min ccLength 3) digitsOnly,
                                      drop (min ccLength 3) digitsOnly))
                          else (defaultCountryCode, digitsOnly))
                       else if length digitsOnly = 11 \<and> startsWith digitsOnly ''1''
                         then (''1'', drop 1 digitsOnly)
                       else if length digitsOnly = 11 \<and> startsWith digitsOnly ''0''
                         then (''44'', drop 1 digitsOnly)
                       else (defaultCountryCode, digitsOnly));
                    result = result\<lparr>countryCode := cc\<rparr>;
                    result =
                      (if length nationalNumber \<ge> 10
                         then result\<lparr>areaCode := slice 0 3 nationalNumber,
                                       localNumber := drop 3 nationalNumber\<rparr>
                       else if length nationalNumber \<ge> 7
                         then result\<lparr>localNumber := nationalNumber\<rparr>
                       else result);
                    result = result\<lparr>e164 := ''+'' @ cc @ nationalNumber\<rparr>;
                    result =
                      (if length nationalNumber = 10
                         then result\<lparr>national := ''('' @ slice 0 3 nationalNumber @ '') ''
                                         @ slice 3 6 nationalNumber @ ''-'' @ drop 6 nationalNumber\<rparr>
                       else if length nationalNumber = 7
                         then result\<lparr>national := slice 0 3 nationalNumber @ ''-''
                                         @ drop 3 nationalNumber\<rparr>
                       else result\<lparr>national := nationalNumber\<rparr>);
                    result =
                      (if length nationalNumber = 10
                         then result\<lparr>international := ''+'' @ cc @ '' '' @ slice 0 3 nationalNumber
                                         @ '' '' @ slice 3 6 nationalNumber @ '' ''
                                         @ drop 6 nationalNumber\<rparr>
                       else result\<lparr>international := ''+'' @ cc @ '' '' @ nationalNumber\<rparr>);
                    result =
                      (if extension result \<noteq> []
                         then result\<lparr>national := national result @ '' ext. '' @ extension result,
                                       international := international result @ '' ext. ''
                                         @ extension result\<rparr>
                       else result)
                in result\<lparr>isValid := isValidE164 (e164 result)\<rparr>)"
| "parsePhoneNumber v defaultCountryCode =
     \<lparr>original = orEmpty v, e164 = [], national = [], international = [], countryCode = [],
      areaCode = [], localNumber = [], extension = [], isValid = False\<rparr>"

section \<open>CaseConverter and KeyTransformer\<close>

definition isUpper :: "char \<Rightarrow> bool" where
  "isUpper c = (c \<in> set upperLetters)"

definition isLower :: "char \<Rightarrow> bool" where
  "isLower c = (c \<in> set lowerLetters)"

text \<open>\<open>.replace(/([a-z])([A-Z])/g, '$1_$2')\<close>, and the same with a space in
  \<open>parseUsername\<close>: the separator goes between a lowercase letter and the uppercase
  letter after it; the scan goes on after the two letters.\<close>

fun separateLowerUpper :: "char \<Rightarrow> string \<Rightarrow> string" where
  "separateLowerUpper sep (a # b # rest) =
     (if isLower a \<and> isUpper b then a # sep # b # separateLowerUpper sep rest
      else a # separateLowerUpper sep (b # rest))"
| "separateLowerUpper sep s = s"

text \<open>\<open>.replace(/([A-Z]+)([A-Z][a-z])/g, '$1_$2')\<close>: a run of two or more uppercase
  letters followed by a lowercase letter gets an underscore before its last letter (the
  greedy \<open>[A-Z]+\<close> gives back one letter); no other run has a match.\<close>

function underscoreUpperRun :: "string \<Rightarrow> string" where
  "underscoreUpperRun [] = []"
| "underscoreUpperRun (c # cs) =
     (if isUpper c then
        let run = takeWhile isUpper (c # cs);
            rest = dropWhile isUpper (c # cs)
        in (case rest of
              l # rest' \<Rightarrow>
                if length run \<ge> 2 \<and> isLower l
                then butlast run @ CHR ''_'' # last run # l # underscoreUpperRun rest'
                else run @ underscoreUpperRun rest
            | [] \<Rightarrow> run)
      else c # underscoreUpperRun cs)"
  by pat_completeness auto
termination
proof (relation "measure length")
  show "wf (measure length)" by simp
next
  fix c cs x xa x21 x22
  assume "isUpper c" "x = takeWhile isUpper (c # cs)" "xa = dropWhile isUpper (c # cs)"
    "xa = x21 # x22"
  then have "length (x21 # x22) \<le> length cs"
    using length_dropWhile_le [of isUpper cs] by simp
  then show "(x22, c # cs) \<in> measure length" by simp
next
  fix c cs x xa x21 x22
  assume "isUpper c" "x = takeWhile isUpper (c # cs)" "xa = dropWhile isUpper (c # cs)"
    "xa = x21 # x22"
  then have "length xa \<le> length cs"
    using length_dropWhile_le [of isUpper cs] by simp
  then show "(xa, c # cs) \<in> measure length" by simp
next
  fix c cs
  show "(cs, c # cs) \<in> measure length" by simp
qed

declare underscoreUpperRun.simps [simp del]

text \<open>\<open>.replace(/[...]+/g, r)\<close> for a character class: every maximal run of characters
  of the class becomes \<open>r\<close>.\<close>

function replaceRuns :: "(char \<Rightarrow> bool) \<Rightarrow> string \<Rightarrow> string \<Rightarrow> string" where
  "replaceRuns cls r [] = []"
| "replaceRuns cls r (c # cs) =
     (if cls c then r @ replaceRuns cls r (dropWhile cls cs)
      else c # replaceRuns cls r cs)"
  by pat_completeness auto
termination
proof (relation "measure (\<lambda>(cls, r, s). length s)")
  show "wf (measure (\<lambda>(cls, r, s). length s))" by simp
next
  fix cls :: "char \<Rightarrow> bool" and r :: string and c cs
  show "((cls, r, dropWhile cls cs), cls, r, c # cs) \<in> measure (\<lambda>(cls, r, s). length s)"
    using length_dropWhile_le [of cls cs] by simp
next
  fix cls :: "char \<Rightarrow> bool" and r :: string and c cs
  show "((cls, r, cs), cls, r, c # cs) \<in> measure (\<lambda>(cls, r, s). length s)" by simp
qed

declare replaceRuns.simps [simp del]

definition isAlnumUnderscore :: "char \<Rightarrow> bool" where
  "isAlnumUnderscore c = (isLower c \<or> isUpper c \<or> isDigit c \<or> c = CHR ''_'')"

definition isUnderscore :: "char \<Rightarrow> bool" where
  "isUnderscore c = (c = CHR ''_'')"

text \<open>\<open>.replace(/^_+|_+$/g, '')\<close>: the underscores at the start and at the end.\<close>

definition stripUnderscores :: "string \<Rightarrow> string" where
  "stripUnderscores s = rev (dropWhile isUnderscore (rev (dropWhile isUnderscore s)))"

definition toSnakeCase :: "string \<Rightarrow> string" where
  "toSnakeCase str =
     (if str = [] then []
      else
        let s1 = separateLowerUpper CHR ''_'' str;
            s2 = underscoreUpperRun s1;
            s3 = replaceRuns (\<lambda>c. isSpace c \<or> c = CHR ''-'' \<or> c = CHR ''.'') ''_'' s2;
            s4 = filter isAlnumUnderscore s3;
            s5 = toLowerCase s4;
            s6 = stripUnderscores s5
        in replaceRuns isUnderscore ''_'' s6)"

text \<open>The characters of a key in snake case: lowercase letters, digits, underscores.\<close>

definition isSnakeChar :: "char \<Rightarrow> bool" where
  "isSnakeChar c = (isLower c \<or> isDigit c \<or> c = CHR ''_'')"

text \<open>The \<open>map\<close> of \<open>toCamelCase\<close> over the words with their indices.\<close>

fun capitalizeFrom :: "nat \<Rightarrow> string list \<Rightarrow> string list" where
  "capitalizeFrom index [] = []"
| "capitalizeFrom index (word # ws) =
     (if index = 0 then word
      else toUpperCase (take 1 word) @ drop 1 word) # capitalizeFrom (index + 1) ws"

definition toCamelCase :: "string \<Rightarrow> string" where
  "toCamelCase str =
     (if str = [] then []
      else
        let s1 = replaceRuns (\<lambda>c. c = CHR ''_'' \<or> c = CHR ''-'' \<or> c = CHR ''.'' \<or> isSpace c)
                   '' '' str;
            s2 = toLowerCase (trim s1);
            ws = filter (\<lambda>word. length word > 0) (split CHR '' '' s2)
        in concat (capitalizeFrom 0 ws))"

definition toPascalCase :: "string \<Rightarrow> string" where
  "toPascalCase str =
     (let camel = toCamelCase str in
      if camel = [] then [] else toUpperCase (take 1 camel) @ drop 1 camel)"

text \<open>
  A nested value as \<open>transformObjectKeys\<close> sees it: a plain object with its entries in
  the order of \<open>Object.entries\<close>, an array, or a value returned as it is (\<open>null\<close>,
  \<open>undefined\<close>, a \<open>Date\<close>, a primitive). \<open>assign\<close> is \<open>result[key] = value\<close>: it
  overwrites the value of a key the object has, and adds the key at the end otherwise.
  (The host lists the keys that are array indices before the others; the model keeps the
  order of insertion for every key.)
\<close>

datatype jsvalue = Obj "(string \<times> jsvalue) list" | Arr "jsvalue list" | Leaf jsval

datatype caseType = snake_case | camelCase

fun assign :: "string \<Rightarrow> 'v \<Rightarrow> (string \<times> 'v) list \<Rightarrow> (string \<times> 'v) list" where
  "assign key v [] = [(key, v)]"
| "assign key v ((k, w) # entries) =
     (if k = key then (k, v) # entries else (k, w) # assign key v entries)"

fun transformObjectKeys :: "jsvalue \<Rightarrow> caseType \<Rightarrow> jsvalue"
  and transformItems :: "jsvalue list \<Rightarrow> caseType \<Rightarrow> jsvalue list"
  and transformEntries ::
    "(string \<times> jsvalue) list \<Rightarrow> caseType \<Rightarrow> (string \<times> jsvalue) list \<Rightarrow> (string \<times> jsvalue) list"
  where
  "transformObjectKeys (Leaf v) caseType = Leaf v"
| "transformObjectKeys (Arr xs) caseType = Arr (transformItems xs caseType)"
| "transformObjectKeys (Obj entries) caseType = Obj (transformEntries entries caseType [])"
| "transformItems [] caseType = []"
| "transformItems (item # xs) caseType =
     transformObjectKeys item caseType # transformItems xs caseType"
| "transformEntries [] caseType result = result"
| "transformEntries ((key, v) # entries) caseType result =
     (let transformer = (if caseType = snake_case then toSnakeCase else toCamelCase);
          newKey = transformer key
      in transformEntries entries caseType
           (assign newKey (transformObjectKeys v caseType) result))"

text \<open>An object whose keys are different and in snake case already, and whose values
  the transformation leaves alone.\<close>

definition snakeObject :: "(string \<times> jsvalue) list \<Rightarrow> bool" where
  "snakeObject es =
     (distinct (map fst es) \<and> (\<forall>k \<in> fst ` set es. toSnakeCase k = k) \<and>
      (\<forall>v \<in> snd ` set es. transformObjectKeys v snake_case = v))"

section \<open>NameParser and UsernameParser\<close>

text \<open>
  \<open>xs[i]\<close>: the element, or \<open>undefined\<close> outside the array. A method called on
  \<open>undefined\<close> throws a \<open>TypeError\<close>; the parsers below have such calls on array
  elements, and each is a branch of the model.
\<close>

definition elemAt :: "'a list \<Rightarrow> nat \<Rightarrow> 'a option" where
  "elemAt xs i = (if i < length xs then Some (xs ! i) else None)"

text \<open>\<open>xs.join(sep)\<close>\<close>

fun join :: "string \<Rightarrow> string list \<Rightarrow> string" where
  "join sep [] = []"
| "join sep [x] = x"
| "join sep (x # y # ys) = x @ sep @ join sep (y # ys)"

text \<open>\<open>s.split(/[...]+/)\<close> for a character class: the pieces between the maximal runs
  of characters of the class.\<close>

function splitRuns :: "(char \<Rightarrow> bool) \<Rightarrow> string \<Rightarrow> string list" where
  "splitRuns cls [] = [[]]"
| "splitRuns cls (c # cs) =
     (if cls c then [] # splitRuns cls (dropWhile cls cs)
      else (case splitRuns cls cs of [] \<Rightarrow> [[c]] | p # ps \<Rightarrow> (c # p) # ps))"
  by pat_completeness auto
termination
proof (relation "measure (\<lambda>(cls, s). length s)")
  show "wf (measure (\<lambda>(cls, s). length s))" by simp
next
  fix cls :: "char \<Rightarrow> bool" and c cs
  show "((cls, dropWhile cls cs), cls, c # cs) \<in> measure (\<lambda>(cls, s). length s)"
    using length_dropWhile_le [of cls cs] by simp
next
  fix cls :: "char \<Rightarrow> bool" and c cs
  show "((cls, cs), cls, c # cs) \<in> measure (\<lambda>(cls, s). length s)" by simp
qed

declare splitRuns.simps [simp del]

text \<open>\<open>s.split(/(\s+)/)\<close>: the words and, between them, the runs of whitespace.\<close>

function splitKeepSpaces :: "string \<Rightarrow> string list" where
  "splitKeepSpaces [] = [[]]"
| "splitKeepSpaces (c # cs) =
     (if isSpace c
      then [] # takeWhile isSpace (c # cs) # splitKeepSpaces (dropWhile isSpace cs)
      else (case splitKeepSpaces cs of [] \<Rightarrow> [[c]] | p # ps \<Rightarrow> (c # p) # ps))"
  by pat_completeness auto
termination
proof (relation "measure length")
  show "wf (measure length)" by simp
next
  fix c cs
  show "(dropWhile isSpace cs, c # cs) \<in> measure length"
    using length_dropWhile_le [of isSpace cs] by simp
next
  fix c cs
  show "(cs, c # cs) \<in> measure length" by simp
qed

declare splitKeepSpaces.simps [simp del]

definition exceptions :: "string list" where
  "exceptions = [''a'', ''an'', ''the'', ''and'', ''but'', ''or'', ''for'', ''nor'', ''so'', ''yet'',
     ''at'', ''by'', ''in'', ''of'', ''on'', ''to'', ''up'', ''as'', ''is'', ''it'']"

definition uppercaseExceptions :: "string list" where
  "uppercaseExceptions = [''usa'', ''uk'', ''uae'', ''nyc'', ''la'', ''dc'', ''ibm'', ''nasa'', ''fbi'',
     ''cia'', ''ceo'', ''cfo'', ''cto'', ''coo'', ''vp'', ''svp'', ''evp'', ''md'', ''phd'', ''llc'',
     ''inc'', ''ltd'', ''ii'', ''iii'', ''iv'', ''vi'', ''vii'', ''viii'', ''ix'', ''xi'']"

text \<open>The \<open>map\<close> of \<open>toTitleCase\<close>; \<open>n\<close> is \<open>array.length\<close>.\<close>

fun titleWords :: "nat \<Rightarrow> nat \<Rightarrow> string list \<Rightarrow> string list" where
  "titleWords n index [] = []"
| "titleWords n index (word # ws) =
     (if word \<noteq> [] \<and> list_all isSpace word then word
      else
        let lowerWord = toLowerCase word in
        if lowerWord \<in> set uppercaseExceptions then toUpperCase word
        else
          let isFirstOrLast = (index = 0 \<or> int index = int n - 1) in
          if \<not> isFirstOrLast \<and> lowerWord \<in> set exceptions then lowerWord
          else toUpperCase (take 1 word) @ toLowerCase (drop 1 word))
     # titleWords n (index + 1) ws"

definition toTitleCase :: "string \<Rightarrow> string" where
  "toTitleCase str =
     (if str = [] then []
      else
        let array = splitKeepSpaces (toLowerCase str)
        in concat (titleWords (length array) 0 array))"

record ParsedName =
  full :: jsval
  firstName :: string
  middleName :: string
  lastName :: string
  prefix' :: string
  suffix' :: string
  initials :: string

definition NAME_PREFIXES :: "string list" where
  "NAME_PREFIXES = [''mr'', ''mrs'', ''ms'', ''miss'', ''dr'', ''prof'', ''professor'',
     ''rev'', ''reverend'', ''fr'', ''father'', ''sr'', ''sister'',
     ''hon'', ''honorable'', ''judge'', ''justice'',
     ''sir'', ''dame'', ''lord'', ''lady'', ''capt'', ''captain'',
     ''col'', ''colonel'', ''gen'', ''general'', ''lt'', ''lieutenant'',
     ''sgt'', ''sergeant'', ''cpl'', ''corporal'', ''pvt'', ''private'',
     ''adm'', ''admiral'', ''cmdr'', ''commander'', ''maj'', ''major'']"

definition NAME_SUFFIXES :: "string list" where
  "NAME_SUFFIXES = [''jr'', ''sr'', ''i'', ''ii'', ''iii'', ''iv'', ''v'', ''vi'', ''vii'', ''viii'',
     ''ix'', ''x'', ''phd'', ''md'', ''dds'', ''dvm'', ''jd'', ''esq'', ''esquire'',
     ''cpa'', ''rn'', ''rph'', ''pe'', ''ra'', ''aia'', ''faia'',
     ''ret'', ''retired'', ''usn'', ''usmc'', ''usaf'', ''usa'']"

definition emptyName :: ParsedName where
  "emptyName = \<lparr>full = JStr [], firstName = [], middleName = [], lastName = [],
                 prefix' = [], suffix' = [], initials = []\<rparr>"

text \<open>The three assignments by the number of remaining parts, and the initials; both
  parsers end with them. A part read from the array is a string while the guard on the
  length holds; the \<open>filter\<close> for the initials reads \<open>p.length\<close> of each of the three
  names, which throws on \<open>undefined\<close>.\<close>

definition assignParts :: "string list \<Rightarrow> ParsedName \<Rightarrow> error + ParsedName" where
  "assignParts parts result =
     (if length parts = 1 then
        (case elemAt parts 0 of
           None \<Rightarrow> Inl TypeError
         | Some p0 \<Rightarrow> Inr (result\<lparr>firstName := p0\<rparr>))
      else if length parts = 2 then
        (case (elemAt parts 0, elemAt parts 1) of
           (Some p0, Some p1) \<Rightarrow> Inr (result\<lparr>firstName := p0, lastName := p1\<rparr>)
         | _ \<Rightarrow> Inl TypeError)
      else if length parts \<ge> 3 then
        (case (elemAt parts 0, elemAt parts (length parts - 1)) of
           (Some p0, Some pl) \<Rightarrow>
             Inr (result\<lparr>firstName := p0, lastName := pl,
                         middleName := join '' '' (butlast (drop 1 parts))\<rparr>)
         | _ \<Rightarrow> Inl TypeError)
      else Inr result)"

definition makeInitials :: "ParsedName \<Rightarrow> string" where
  "makeInitials result =
     (let initialParts =
            map (\<lambda>p. toUpperCase (take 1 p))
              (filter (\<lambda>p. length p > 0) [firstName result, middleName result, lastName result])
      in join ''.'' initialParts @ (if length initialParts > 0 then ''.'' else []))"

text \<open>The \<open>while\<close> loop of \<open>parseName\<close> that takes the suffixes off the end.\<close>

function suffixLoop :: "string list \<Rightarrow> string list \<Rightarrow> error + string list \<times> string list" where
  "suffixLoop parts suffixes' =
     (if length parts > 1 then
        (case elemAt parts (length parts - 1) of
           None \<Rightarrow> Inl TypeError
         | Some l \<Rightarrow>
             let lastPart = filter (\<lambda>c. c \<noteq> CHR '','')
                              (filter (\<lambda>c. c \<noteq> CHR ''.'') (toLowerCase l))
             in if lastPart \<in> set NAME_SUFFIXES
                then suffixLoop (butlast parts) (l # suffixes')
                else Inr (parts, suffixes'))
      else Inr (parts, suffixes'))"
  by pat_completeness auto
termination
  by (relation "measure (\<lambda>(parts, suffixes'). length parts)") auto

declare suffixLoop.simps [simp del]

text \<open>
  \<open>parseName\<close>, in the steps its comments name. \<open>reorderName\<close> is "Handle Last,
  First Middle format"; \<open>extractPrefix\<close> is "Extract prefix", which reads
  \<open>parts[0].toLowerCase()\<close> under the guard \<open>parts.length > 1\<close>.
\<close>

definition reorderName :: "string \<Rightarrow> string" where
  "reorderName name =
     (if CHR '','' \<in> set name then
        (case map trim (split CHR '','' name) of
           [] \<Rightarrow> name
         | lastPart # rest \<Rightarrow>
             if length rest > 0 then join '' '' rest @ '' '' @ lastPart else name)
      else name)"

definition extractPrefix :: "string list \<Rightarrow> ParsedName \<Rightarrow> error + ParsedName \<times> string list" where
  "extractPrefix parts result =
     (if length parts > 1 then
        (case elemAt parts 0 of
           None \<Rightarrow> Inl TypeError
         | Some p0 \<Rightarrow>
             let firstPart = filter (\<lambda>c. c \<noteq> CHR ''.'') (toLowerCase p0)
             in if firstPart \<in> set NAME_PREFIXES
                then Inr (result\<lparr>prefix' := p0\<rparr>, drop 1 parts)
                else Inr (result, parts))
      else Inr (result, parts))"

fun parseName :: "jsval \<Rightarrow> error + ParsedName" where
  "parseName (JStr fullName) =
     (if fullName = [] then Inr emptyName
      else
        let name = replaceRuns isSpace '' '' (trim fullName);
            result = emptyName\<lparr>full := JStr name\<rparr>;
            name = reorderName name;
            parts = filter (\<lambda>p. length p > 0) (split CHR '' '' name)
        in if length parts = 0 then Inr result
           else
             (case extractPrefix parts result of
                Inl e \<Rightarrow> Inl e
              | Inr (result, parts) \<Rightarrow>
                  (case suffixLoop parts [] of
                     Inl e \<Rightarrow> Inl e
                   | Inr (parts, suffixes') \<Rightarrow>
                       (case assignParts parts (result\<lparr>suffix' := join '' '' suffixes'\<rparr>) of
                          Inl e \<Rightarrow> Inl e
                        | Inr result \<Rightarrow> Inr (result\<lparr>initials := makeInitials result\<rparr>)))))"
| "parseName v = Inr emptyName"

text \<open>\<open>.replace(/^[@#]/g, '')\<close> and \<open>.replace(/[0-9]+$/g, '')\<close>\<close>

definition stripHandlePrefix :: "string \<Rightarrow> string" where
  "stripHandlePrefix s =
     (case s of [] \<Rightarrow> [] | c # cs \<Rightarrow> if c = CHR ''@'' \<or> c = CHR ''#'' then cs else s)"

definition stripTrailingDigits :: "string \<Rightarrow> string" where
  "stripTrailingDigits s = rev (dropWhile isDigit (rev s))"

text \<open>"Split by common separators": at the separators when the handle has one, at the
  changes from lowercase to uppercase otherwise.\<close>

definition usernameParts :: "string \<Rightarrow> string list" where
  "usernameParts cleaned =
     (if CHR ''_'' \<in> set cleaned \<or> CHR ''.'' \<in> set cleaned \<or> CHR ''-'' \<in> set cleaned
      then filter (\<lambda>p. length p > 0)
             (splitRuns (\<lambda>c. c = CHR ''_'' \<or> c = CHR ''.'' \<or> c = CHR ''-'') cleaned)
      else
        let camelParts = split CHR '' '' (separateLowerUpper CHR '' '' cleaned)
        in if length camelParts > 1 then camelParts else [cleaned])"

fun parseUsername :: "jsval \<Rightarrow> error + ParsedName" where
  "parseUsername (JStr username) =
     (let result = emptyName\<lparr>full := orEmpty (JStr username)\<rparr> in
      if username = [] then Inr result
      else
        let cleaned = stripTrailingDigits (stripHandlePrefix username);
            parts = usernameParts cleaned;
            parts = map toTitleCase parts
        in (case assignParts parts result of
              Inl e \<Rightarrow> Inl e
            | Inr result \<Rightarrow>
                let result =
                      result\<lparr>full :=
                        JStr (join '' ''
                          (filter (\<lambda>p. length p > 0)
                             [firstName result, middleName result, lastName result]))\<rparr>
                in Inr (result\<lparr>initials := makeInitials result\<rparr>)))"
| "parseUsername v = Inr (emptyName\<lparr>full := orEmpty v\<rparr>)"

section \<open>AddressParser\<close>

text \<open>The field \<open>original\<close> of the source is \<open>original'\<close> here, apart from the field of
  \<open>ParsedPhoneNumber\<close>.\<close>

record ParsedAddress =
  original' :: jsval
  streetNumber :: string
  streetName :: string
  unit :: string
  city :: string
  state :: jsval
  postalCode :: string
  country :: string
  streetAddress :: string

definition emptyAddress :: ParsedAddress where
  "emptyAddress = \<lparr>original' = JStr [], streetNumber = [], streetName = [], unit = [],
                    city = [], state = JStr [], postalCode = [], country = [],
                    streetAddress = []\<rparr>"

definition US_STATES :: "(string \<times> string) list" where
  "US_STATES =
     [(''alabama'', ''AL''), (''alaska'', ''AK''), (''arizona'', ''AZ''), (''arkansas'', ''AR''),
      (''california'', ''CA''), (''colorado'', ''CO''), (''connecticut'', ''CT''), (''delaware'', ''DE''),
      (''florida'', ''FL''), (''georgia'', ''GA''), (''hawaii'', ''HI''), (''idaho'', ''ID''),
      (''illinois'', ''IL''), (''indiana'', ''IN''), (''iowa'', ''IA''), (''kansas'', ''KS''),
      (''kentucky'', ''KY''), (''louisiana'', ''LA''), (''maine'', ''ME''), (''maryland'', ''MD''),
      (''massachusetts'', ''MA''), (''michigan'', ''MI''), (''minnesota'', ''MN''), (''mississippi'', ''MS''),
      (''missouri'', ''MO''), (''montana'', ''MT''), (''nebraska'', ''NE''), (''nevada'', ''NV''),
      (''new hampshire'', ''NH''), (''new jersey'', ''NJ''), (''new mexico'', ''NM''), (''new york'', ''NY''),
      (''north carolina'', ''NC''), (''north dakota'', ''ND''), (''ohio'', ''OH''), (''oklahoma'', ''OK''),
      (''oregon'', ''OR''), (''pennsylvania'', ''PA''), (''rhode island'', ''RI''), (''south carolina'', ''SC''),
      (''south dakota'', ''SD''), (''tennessee'', ''TN''), (''texas'', ''TX''), (''utah'', ''UT''),
      (''vermont'', ''VT''), (''virginia'', ''VA''), (''washington'', ''WA''), (''west virginia'', ''WV''),
      (''wisconsin'', ''WI''), (''wyoming'', ''WY''), (''district of columbia'', ''DC'')]"

definition STATE_ABBREVS :: "string list" where
  "STATE_ABBREVS = map snd US_STATES"

text \<open>
  \<open>US_STATES[key]\<close>: the table is a plain object, so a key it does not have is looked up
  on \<open>Object.prototype\<close>; of the names there, \<open>constructor\<close> and \<open>__proto__\<close> are the two
  that a lowercased string can be, and their values are a function and an object.
\<close>

definition lookupState :: "string \<Rightarrow> jsval" where
  "lookupState key =
     (case map_of US_STATES key of
        Some abbreviation \<Rightarrow> JStr abbreviation
      | None \<Rightarrow>
          if key = ''constructor'' then JOther True ''function Object() { [native code] }''
          else if key = ''__proto__'' then JOther True ''[object Object]''
          else JUndefined)"

text \<open>
  \<open>\b\<close> between two neighbouring characters, each absent at an end of the string: one
  of them is a word character and the other is not.
\<close>

definition isWordChar :: "char option \<Rightarrow> bool" where
  "isWordChar c = (case c of None \<Rightarrow> False | Some x \<Rightarrow> isAlnumUnderscore x)"

definition wordBoundary :: "char option \<Rightarrow> char option \<Rightarrow> bool" where
  "wordBoundary before after = (isWordChar before \<noteq> isWordChar after)"

text \<open>The leftmost match of a pattern that is given by its match at the start of a
  string, with the character before that start.\<close>

fun leftmost :: "(char option \<Rightarrow> string \<Rightarrow> 'a option) \<Rightarrow> char option \<Rightarrow> string \<Rightarrow> 'a option" where
  "leftmost pattern before [] = pattern before []"
| "leftmost pattern before (c # cs) =
     (case pattern before (c # cs) of
        Some m \<Rightarrow> Some m
      | None \<Rightarrow> leftmost pattern (Some c) cs)"

text \<open>\<open>/\b(\d{5}(?:-\d{4})?)\b/\<close> at the start of a string: the text matched (which is
  also the group). The longer alternative is tried first.\<close>

definition usZipAt :: "char option \<Rightarrow> string \<Rightarrow> string option" where
  "usZipAt before s =
     (if wordBoundary before (elemAt s 0) \<and> length (take 5 s) = 5 \<and> list_all isDigit (take 5 s)
      then
        if startsWith (drop 5 s) ''-'' \<and> length (slice 6 10 s) = 4
           \<and> list_all isDigit (slice 6 10 s) \<and> wordBoundary (elemAt s 9) (elemAt s 10)
        then Some (take 10 s)
        else if wordBoundary (elemAt s 4) (elemAt s 5) then Some (take 5 s)
        else None
      else None)"

text \<open>\<open>/\b([A-Z]\d[A-Z]\s?\d[A-Z]\d)\b/i\<close> at the start of a string.\<close>

definition isLetter :: "char \<Rightarrow> bool" where
  "isLetter c = (isLower c \<or> isUpper c)"

definition caPostalAt :: "char option \<Rightarrow> string \<Rightarrow> string option" where
  "caPostalAt before s =
     (case s of
        a # b # c # rest \<Rightarrow>
          if wordBoundary before (Some a) \<and> isLetter a \<and> isDigit b \<and> isLetter c then
            let space = (case rest of [] \<Rightarrow> [] | w # _ \<Rightarrow> if isSpace w then [w] else [])
            in (case drop (length space) rest of
                  d # e # f # after \<Rightarrow>
                    if isDigit d \<and> isLetter e \<and> isDigit f
                       \<and> wordBoundary (Some f) (elemAt after 0)
                    then Some (a # b # c # space @ [d, e, f])
                    else None
                | _ \<Rightarrow> None)
          else None
      | _ \<Rightarrow> None)"

text \<open>
  \<open>.replace(/\b(USA|United States|US|Canada|CA)\b/gi, '')\<close>. \<open>countryAt\<close> is the length
  of the match at the start of a string, the alternatives in their order;
  \<open>removeCountries\<close> goes through the string, \<open>k\<close> being the number of characters of a
  match that are still to be dropped.
\<close>

definition countryAt :: "char option \<Rightarrow> string \<Rightarrow> nat option" where
  "countryAt before s =
     (if wordBoundary before (elemAt s 0) then
        map_option length
          (List.find
             (\<lambda>name. toLowerCase (take (length name) s) = name
                      \<and> wordBoundary (elemAt s (length name - 1)) (elemAt s (length name)))
             [''usa'', ''united states'', ''us'', ''canada'', ''ca''])
      else None)"

fun removeCountries :: "char option \<Rightarrow> nat \<Rightarrow> string \<Rightarrow> string" where
  "removeCountries before k [] = []"
| "removeCountries before k (c # cs) =
     (if k > 0 then removeCountries (Some c) (k - 1) cs
      else
        (case countryAt before (c # cs) of
           Some n \<Rightarrow> removeCountries (Some c) (n - 1) cs
         | None \<Rightarrow> c # removeCountries (Some c) 0 cs))"

text \<open>\<open>/(?:apt\.?|apartment|unit|suite|ste\.?|#)\s*([a-z0-9-]+)/i\<close>: the group of the
  leftmost match.\<close>

definition unitKeywords :: "(string \<times> bool) list" where
  "unitKeywords = [(''apt'', True), (''apartment'', False), (''unit'', False), (''suite'', False),
                   (''ste'', True), (''#'', False)]"

definition isUnitChar :: "char \<Rightarrow> bool" where
  "isUnitChar c = (isLetter c \<or> isDigit c \<or> c = CHR ''-'')"

definition unitMatch :: "string \<Rightarrow> string option" where
  "unitMatch streetPart =
     map_option snd (leftmost (\<lambda>before s. firstAlternative isUnitChar unitKeywords s) None streetPart)"

text \<open>
  \<open>/^(\d+(?:-\d+)?[a-z]?)\s+(.+?)(?:\s+(?:apt\.?|apartment|unit|suite|ste\.?|#).*)?$/i\<close>.
  The first group is the digits, then a hyphen with digits when a hyphen follows, then a
  letter when one follows; whitespace has to come next. The lazy second group is the
  shortest text after the whitespace that reaches the end of the string or whitespace
  followed by a unit keyword (\<open>unitFollows\<close>); when nothing follows the whitespace, the
  pattern gives the last whitespace character to the second group. The string has no
  line terminator: \<open>parseAddress\<close> has replaced all whitespace by single spaces.
\<close>

definition unitFollows :: "string \<Rightarrow> bool" where
  "unitFollows s =
     (takeWhile isSpace s \<noteq> [] \<and>
      (\<exists>keyword \<in> set (map fst unitKeywords).
          toLowerCase (take (length keyword) (dropWhile isSpace s)) = keyword))"

fun lazyStreetName :: "string \<Rightarrow> string" where
  "lazyStreetName [] = []"
| "lazyStreetName (c # cs) = c # (if cs = [] \<or> unitFollows cs then [] else lazyStreetName cs)"

definition streetMatch :: "string \<Rightarrow> (string \<times> string) option" where
  "streetMatch streetPart =
     (let digits = takeWhile isDigit streetPart;
          rest = dropWhile isDigit streetPart;
          range = (if startsWith rest ''-'' then ''-'' @ takeWhile isDigit (drop 1 rest) else []);
          rest = drop (length range) rest;
          letter = (case rest of [] \<Rightarrow> [] | l # _ \<Rightarrow> if isLetter l then [l] else []);
          rest = drop (length letter) rest;
          spaces = takeWhile isSpace rest;
          rest = dropWhile isSpace rest
      in if digits = [] \<or> range = ''-'' \<or> spaces = [] then None
         else if rest = [] then
           (if length spaces \<ge> 2 then Some (digits @ range @ letter, [last spaces]) else None)
         else Some (digits @ range @ letter, lazyStreetName rest))"

text \<open>\<open>.replace(/,.*$/, '')\<close> on a string without line terminators.\<close>

definition beforeComma :: "string \<Rightarrow> string" where
  "beforeComma s = takeWhile (\<lambda>c. c \<noteq> CHR '','') s"

text \<open>
  \<open>parseAddress\<close>, in the steps its comments name: "Extract postal/ZIP code",
  "First part is usually street address", "Third part is usually state" and "Try to
  extract state from city part". The reads \<open>parts[0]\<close> (matched against the patterns),
  \<open>parts[2].trim()\<close> and \<open>cityStateParts[cityStateParts.length - 1].toUpperCase()\<close> are
  followed by a method call on the element. The read of \<open>parts[1]\<close> is not (the source
  would store \<open>undefined\<close> as the city); the model has an error branch there as well,
  which makes it stricter than the source.
\<close>

definition extractPostalCode :: "ParsedAddress \<Rightarrow> string \<Rightarrow> ParsedAddress \<times> string" where
  "extractPostalCode result normalized =
     (let usZipMatch = leftmost usZipAt None normalized;
          caPostalMatch = leftmost caPostalAt None normalized
      in (case usZipMatch of
            Some zipCode \<Rightarrow>
              (result\<lparr>postalCode := zipCode, country := ''USA''\<rparr>,
               trim (replaceFirst zipCode [] normalized))
          | None \<Rightarrow>
              (case caPostalMatch of
                 Some code \<Rightarrow>
                   (result\<lparr>postalCode :=
                              map (\<lambda>c. if isSpace c then CHR '' '' else c) (toUpperCase code),
                            country := ''Canada''\<rparr>,
                    trim (replaceFirst code [] normalized))
               | None \<Rightarrow> (result, normalized))))"

definition parseStreet :: "string \<Rightarrow> ParsedAddress \<Rightarrow> ParsedAddress" where
  "parseStreet streetPart result =
     (let result =
            (case unitMatch streetPart of
               Some u \<Rightarrow> result\<lparr>unit := u\<rparr>
             | None \<Rightarrow> result);
          result =
            (case streetMatch streetPart of
               Some (number, name) \<Rightarrow>
                 result\<lparr>streetNumber := number, streetName := trim (beforeComma name)\<rparr>
             | None \<Rightarrow> result\<lparr>streetName := trim (beforeComma streetPart)\<rparr>);
          result =
            result\<lparr>streetAddress :=
              (if streetNumber result \<noteq> []
               then streetNumber result @ '' '' @ streetName result
               else streetName result)\<rparr>
      in if unit result \<noteq> []
         then result\<lparr>streetAddress := streetAddress result @ '' #'' @ unit result\<rparr>
         else result)"

definition resolveState :: "string \<Rightarrow> jsval" where
  "resolveState statePart =
     (let stateUpper = toUpperCase statePart in
      if stateUpper \<in> set STATE_ABBREVS then JStr stateUpper
      else
        let stateLower = toLowerCase statePart;
            found = lookupState stateLower
        in if truthy found then found else JStr statePart)"

definition stateFromCity :: "ParsedAddress \<Rightarrow> error + ParsedAddress" where
  "stateFromCity result =
     (if \<not> truthy (state result) \<and> city result \<noteq> [] then
        let cityStateParts = splitRuns isSpace (city result) in
        if length cityStateParts \<ge> 2 then
          (case elemAt cityStateParts (length cityStateParts - 1) of
             None \<Rightarrow> Inl TypeError
           | Some l \<Rightarrow>
               let lastPart = toUpperCase l in
               if lastPart \<in> set STATE_ABBREVS
               then Inr (result\<lparr>state := JStr lastPart,
                                 city := join '' '' (butlast cityStateParts)\<rparr>)
               else Inr result)
        else Inr result
      else Inr result)"

fun parseAddress :: "jsval \<Rightarrow> error + ParsedAddress" where
  "parseAddress (JStr address) =
     (let result = emptyAddress\<lparr>original' := orEmpty (JStr address)\<rparr> in
      if address = [] then Inr result
      else
        let normalized = replaceRuns isSpace '' '' (trim address);
            (result, normalized) = extractPostalCode result normalized;
            normalized = trim (removeCountries None 0 normalized);
            parts = filter (\<lambda>p. length p > 0) (map trim (split CHR '','' normalized))
        in
          (case (if length parts \<ge> 1 then
                   (case elemAt parts 0 of
                      None \<Rightarrow> Inl TypeError
                    | Some streetPart \<Rightarrow> Inr (parseStreet streetPart result))
                 else Inr result) of
             Inl e \<Rightarrow> Inl e
           | Inr result \<Rightarrow>
               (case (if length parts \<ge> 2 then
                        (case elemAt parts 1 of
                           None \<Rightarrow> Inl TypeError
                         | Some p1 \<Rightarrow> Inr (result\<lparr>city := p1\<rparr>))
                      else Inr result) of
                  Inl e \<Rightarrow> Inl e
                | Inr result \<Rightarrow>
                    (case (if length parts \<ge> 3 then
                             (case elemAt parts 2 of
                                None \<Rightarrow> Inl TypeError
                              | Some p2 \<Rightarrow> Inr (result\<lparr>state := resolveState (trim p2)\<rparr>))
                           else Inr result) of
                       Inl e \<Rightarrow> Inl e
                     | Inr result \<Rightarrow> stateFromCity result))))"
| "parseAddress v = Inr (emptyAddress\<lparr>original' := orEmpty v\<rparr>)"

text \<open>The inputs that pass the guard \<open>!x || typeof x !== 'string'\<close> of the parsers: the
  strings that are not empty.\<close>

fun isNonEmptyString :: "jsval \<Rightarrow> bool" where
  "isNonEmptyString (JStr s) = (s \<noteq> [])"
| "isNonEmptyString v = False"

definition emptyPhoneNumber :: ParsedPhoneNumber where
  "emptyPhoneNumber = \<lparr>original = JStr [], e164 = [], national = [], international = [],
                        countryCode = [], areaCode = [], localNumber = [], extension = [],
                        isValid = False\<rparr>"

section \<open>Properties of PhoneNormalizer\<close>

lemma isDigit_simps [simp]:
  "isDigit c \<longleftrightarrow> c \<in> set ''0123456789''"
  by (simp add: isDigit_def)

lemma filter_isDigit_nonempty: "1 \<le> length (filter isDigit s) \<Longrightarrow> s \<noteq> []"
  by auto

text \<open>
  Claim C4, as the code has it. The two guards on the digit count come first in the code:
  an input with no digit, or with more than 15 digits, is returned as it is, with or
  without a leading \<open>+\<close>. For an input with 1 to 15 digits the classification is the
  stated one: a leading \<open>+\<close> gives \<open>+\<close> and the digits; otherwise 11 digits starting
  with \<open>1\<close> give \<open>+\<close> and the digits, 10 digits give \<open>+\<close>, the default country code
  and the digits, 11 digits starting with \<open>0\<close> give \<open>+44\<close> and the remaining 10 digits,
  12 digits starting with \<open>44\<close> give \<open>+\<close> and the digits, and 7 to 10 digits get the
  default country code. The two examples of the claim hold.
\<close>

theorem cleanPhoneNumber_classification:
  "(1 \<le> length (filter isDigit s) \<and> length (filter isDigit s) \<le> 15 \<longrightarrow>
     (let d = filter isDigit s; n = length d; hasPlus = startsWith (trim s) ''+'';
          r = cleanPhoneNumber (JStr s) cc
      in (hasPlus \<longrightarrow> r = JStr (''+'' @ d)) \<and>
         (\<not> hasPlus \<and> n = 11 \<and> startsWith d ''1'' \<longrightarrow> r = JStr (''+'' @ d)) \<and>
         (\<not> hasPlus \<and> n = 10 \<longrightarrow> r = JStr (''+'' @ cc @ d)) \<and>
         (\<not> hasPlus \<and> n = 11 \<and> startsWith d ''0'' \<longrightarrow> r = JStr (''+44'' @ drop 1 d)) \<and>
         (\<not> hasPlus \<and> n = 12 \<and> startsWith d ''44'' \<longrightarrow> r = JStr (''+'' @ d)) \<and>
         (\<not> hasPlus \<and> 7 \<le> n \<and> n \<le> 10 \<longrightarrow> r = JStr (''+'' @ cc @ d)))) \<and>
   (length (filter isDigit s) = 0 \<or> 15 < length (filter isDigit s) \<longrightarrow>
      cleanPhoneNumber (JStr s) cc = JStr s) \<and>
   cleanPhoneNumber (JStr ''(555) 000-1111'') ''1'' = JStr ''+15550001111'' \<and>
   cleanPhoneNumber (JStr ''07946095800'') ''44'' = JStr ''+447946095800''"
proof (intro conjI impI)
  assume a: "1 \<le> length (filter isDigit s) \<and> length (filter isDigit s) \<le> 15"
  then have ne: "s \<noteq> []"
    using filter_isDigit_nonempty by blast
  show "let d = filter isDigit s; n = length d; hasPlus = startsWith (trim s) ''+'';
          r = cleanPhoneNumber (JStr s) cc
      in (hasPlus \<longrightarrow> r = JStr (''+'' @ d)) \<and>
         (\<not> hasPlus \<and> n = 11 \<and> startsWith d ''1'' \<longrightarrow> r = JStr (''+'' @ d)) \<and>
         (\<not> hasPlus \<and> n = 10 \<longrightarrow> r = JStr (''+'' @ cc @ d)) \<and>
         (\<not> hasPlus \<and> n = 11 \<and> startsWith d ''0'' \<longrightarrow> r = JStr (''+44'' @ drop 1 d)) \<and>
         (\<not> hasPlus \<and> n = 12 \<and> startsWith d ''44'' \<longrightarrow> r = JStr (''+'' @ d)) \<and>
         (\<not> hasPlus \<and> 7 \<le> n \<and> n \<le> 10 \<longrightarrow> r = JStr (''+'' @ cc @ d))"
    using a ne by (auto simp: Let_def startsWith_def simp del: isDigit_simps)
next
  assume "length (filter isDigit s) = 0 \<or> 15 < length (filter isDigit s)"
  then show "cleanPhoneNumber (JStr s) cc = JStr s"
    by (cases "s = []") (auto simp: Let_def simp del: isDigit_simps)
next
  show "cleanPhoneNumber (JStr ''(555) 000-1111'') ''1'' = JStr ''+15550001111''"
    by (simp add: startsWith_def trim_def isSpace_def)
next
  show "cleanPhoneNumber (JStr ''07946095800'') ''44'' = JStr ''+447946095800''"
    by (simp add: startsWith_def trim_def isSpace_def)
qed

theorem cleanPhoneNumber_classification_witness:
  "length (filter isDigit ''555 0101'') = 7 \<and> \<not> startsWith (trim ''555 0101'') ''+'' \<and>
   cleanPhoneNumber (JStr ''555 0101'') ''49'' = JStr ''+495550101'' \<and>
   length (filter isDigit ''+ (none)'') = 0 \<and> startsWith (trim ''+ (none)'') ''+'' \<and>
   cleanPhoneNumber (JStr ''+ (none)'') ''49'' = JStr ''+ (none)''"
  using cleanPhoneNumber_classification [of "''555 0101''" "''49''"]
    cleanPhoneNumber_classification [of "''+ (none)''" "''49''"]
  by (simp add: startsWith_def trim_def isSpace_def)

text \<open>
  Claim C4 as stated, without the bound on the digit count, fails: an input with a leading
  \<open>+\<close> and 16 digits is returned as it is, formatting characters included.
\<close>

theorem cleanPhoneNumber_plus_counterexample:
  "startsWith (trim ''+1 (234) 567-8901-23456'') ''+'' \<and>
   cleanPhoneNumber (JStr ''+1 (234) 567-8901-23456'') ''1''
     \<noteq> JStr (''+'' @ filter isDigit ''+1 (234) 567-8901-23456'')"
  by (simp add: startsWith_def trim_def isSpace_def)

text \<open>
  Claim C5, as the code has it. The input is returned unchanged when it has no digit or
  more than 15 digits. An input with 1 to 15 digits and no leading \<open>+\<close> that matches none
  of the listed patterns (1 to 6 digits, 11 digits starting with neither \<open>0\<close> nor \<open>1\<close>,
  12 digits not starting with \<open>44\<close>, 13 to 15 digits) is returned as \<open>+\<close> and its digits.
\<close>

theorem cleanPhoneNumber_fallback:
  "(let d = filter isDigit s; n = length d; hasPlus = startsWith (trim s) ''+'';
        r = cleanPhoneNumber (JStr s) cc
    in (n = 0 \<or> 15 < n \<longrightarrow> r = JStr s) \<and>
       (1 \<le> n \<and> n \<le> 15 \<and> \<not> hasPlus \<and>
        \<not> (n = 11 \<and> startsWith d ''1'') \<and> n \<noteq> 10 \<and>
        \<not> (n = 11 \<and> startsWith d ''0'') \<and>
        \<not> (n = 12 \<and> startsWith d ''44'') \<and> \<not> (7 \<le> n \<and> n \<le> 10)
        \<longrightarrow> r = JStr (''+'' @ d)))"
  by (cases "s = []") (auto simp: Let_def simp del: isDigit_simps)

theorem cleanPhoneNumber_fallback_witness:
  "cleanPhoneNumber (JStr ''no phone'') ''1'' = JStr ''no phone'' \<and>
   cleanPhoneNumber (JStr ''3312345678901'') ''1'' = JStr ''+3312345678901''"
  using cleanPhoneNumber_fallback [of "''no phone''" "''1''"]
    cleanPhoneNumber_fallback [of "''3312345678901''" "''1''"]
  by (simp add: startsWith_def trim_def isSpace_def)

text \<open>
  Claim C5 as stated fails: an input of five digits with no leading \<open>+\<close> matches none of
  the listed patterns and is not returned unchanged; it gets a \<open>+\<close> in front.
\<close>

theorem cleanPhoneNumber_unchanged_counterexample:
  "length (filter isDigit ''12345'') = 5 \<and> \<not> startsWith (trim ''12345'') ''+'' \<and>
   cleanPhoneNumber (JStr ''12345'') ''1'' = JStr ''+12345'' \<and>
   cleanPhoneNumber (JStr ''12345'') ''1'' \<noteq> JStr ''12345''"
  by (simp add: startsWith_def trim_def isSpace_def)

text \<open>
  Claim C10. For an input string with 1 to 15 digits and a default country code of digits
  only, the result is a \<open>+\<close> followed by digits only; and for every input string the
  result is the input itself or such a \<open>+digits\<close> string.
\<close>

theorem cleanPhoneNumber_plus_digits:
  assumes cc: "list_all isDigit cc"
  shows "(1 \<le> length (filter isDigit s) \<and> length (filter isDigit s) \<le> 15
           \<longrightarrow> isPlusDigits (cleanPhoneNumber (JStr s) cc)) \<and>
         (cleanPhoneNumber (JStr s) cc = JStr s \<or> isPlusDigits (cleanPhoneNumber (JStr s) cc))"
proof -
  have d: "list_all isDigit (filter isDigit s)"
    by (simp add: list_all_iff del: isDigit_simps)
  have dd: "list_all isDigit (drop 1 (filter isDigit s))"
    using d by (auto simp: list_all_iff dest: in_set_dropD simp del: isDigit_simps)
  have four: "isDigit CHR ''4''"
    by simp
  show ?thesis
  proof (cases "s = []")
    case True
    then show ?thesis by simp
  next
    case False
    then show ?thesis
      using cc d dd four by (auto simp: Let_def simp del: isDigit_simps)
  qed
qed

theorem cleanPhoneNumber_plus_digits_witness:
  "list_all isDigit ''1'' \<and> cleanPhoneNumber (JStr ''(555) 000-1111'') ''1'' = JStr ''+15550001111'' \<and>
   isPlusDigits (cleanPhoneNumber (JStr ''(555) 000-1111'') ''1'')"
  using cleanPhoneNumber_plus_digits [of "''1''" "''(555) 000-1111''"]
  by (simp add: startsWith_def trim_def isSpace_def)

section \<open>Properties of SimilarityEngine\<close>

text \<open>The loops of \<open>jaroSimilarity\<close>: the matching phase marks as many positions of
  one string as of the other, so the transposition loop finds a marked position of the
  second string for each marked position of the first and never runs past the array.\<close>

lemma findMatch_Some:
  "findMatch s1 s2 m2 i j e = Some k \<Longrightarrow> j \<le> k \<and> k < e \<and> \<not> m2 ! k \<and> s1 ! i = s2 ! k"
proof (induction s1 s2 m2 i j e rule: findMatch.induct)
  case (1 s1 s2 m2 i j e)
  then show ?case
    by (auto split: if_splits simp add: findMatch.simps [of s1 s2 m2 i j e])
qed

lemma cnt_update:
  "i < length xs \<Longrightarrow> \<not> xs ! i \<Longrightarrow> cnt (xs[i := True]) = Suc (cnt xs)"
proof (induction xs arbitrary: i)
  case Nil
  then show ?case by simp
next
  case (Cons x xs)
  then show ?case by (cases i) (auto simp: cnt_def)
qed

lemma cnt_le: "cnt xs \<le> length xs"
  by (simp add: cnt_def)

lemma matchLoop_inv:
  assumes "matchLoop s1 s2 w i (m1, m2, n) = (m1', m2', n')"
    and "length m1 = length s1" "length m2 = length s2"
    and "cnt m1 = n" "cnt m2 = n"
    and "\<forall>i'. i \<le> i' \<and> i' < length m1 \<longrightarrow> \<not> m1 ! i'"
  shows "length m1' = length s1 \<and> length m2' = length s2 \<and> cnt m1' = n' \<and> cnt m2' = n' \<and> n \<le> n'"
  using assms
proof (induction s1 s2 w i "(m1, m2, n)" arbitrary: m1 m2 n rule: matchLoop.induct)
  case (1 s1 s2 w i m1 m2 n)
  note unf = matchLoop.simps [of s1 s2 w i m1 m2 n]
  show ?case
  proof (cases "i < length s1")
    case False
    with "1.prems" show ?thesis by (simp add: unf)
  next
    case True
    let ?start = "nat (max 0 (int i - int w))"
    let ?end = "min (i + w + 1) (length s2)"
    show ?thesis
    proof (cases "findMatch s1 s2 m2 i ?start ?end")
      case None
      with True "1.prems" have "matchLoop s1 s2 w (i + 1) (m1, m2, n) = (m1', m2', n')"
        by (simp add: Let_def unf)
      moreover have "\<forall>i'. i + 1 \<le> i' \<and> i' < length m1 \<longrightarrow> \<not> m1 ! i'"
        using "1.prems"(6) by auto
      ultimately show ?thesis
        using "1.hyps"(1) [OF True refl refl None] "1.prems"(2-5) by blast
    next
      case (Some j)
      from findMatch_Some [OF Some] have j: "j < length s2" "\<not> m2 ! j"
        by auto
      from Some True "1.prems" have eq:
        "matchLoop s1 s2 w (i + 1) (m1[i := True], m2[j := True], n + 1) = (m1', m2', n')"
        by (simp add: Let_def unf)
      have c1: "cnt (m1[i := True]) = n + 1"
        using cnt_update [of i m1] True "1.prems"(2,4,6) by auto
      have c2: "cnt (m2[j := True]) = n + 1"
        using cnt_update [of j m2] j "1.prems"(3,5) by auto
      have later: "\<forall>i'. i + 1 \<le> i' \<and> i' < length (m1[i := True]) \<longrightarrow> \<not> (m1[i := True]) ! i'"
        using "1.prems"(6) by auto
      have "length m1' = length s1 \<and> length m2' = length s2 \<and> cnt m1' = n' \<and> cnt m2' = n' \<and> n + 1 \<le> n'"
        using "1.hyps"(2) [OF True refl refl Some eq _ _ c1 c2 later] "1.prems"(2,3) by simp
      then show ?thesis by simp
    qed
  qed
qed

lemma cnt_drop_step:
  "k < length m \<Longrightarrow> cnt (drop k m) = (if m ! k then 1 else 0) + cnt (drop (Suc k) m)"
  by (simp add: cnt_def flip: Cons_nth_drop_Suc)

lemma skipUnmatched_finds:
  "1 \<le> cnt (drop k m2) \<Longrightarrow>
   \<exists>k'. skipUnmatched m2 k = Inr k' \<and> k' < length m2 \<and>
        Suc (cnt (drop (Suc k') m2)) = cnt (drop k m2)"
proof (induction m2 k rule: skipUnmatched.induct)
  case (1 m2 k)
  note unf = skipUnmatched.simps [of m2 k]
  show ?case
  proof (cases "k < length m2")
    case False
    with "1.prems" show ?thesis by (simp add: cnt_def)
  next
    case True
    show ?thesis
    proof (cases "m2 ! k")
      case True
      with \<open>k < length m2\<close> show ?thesis
        by (simp add: cnt_drop_step unf)
    next
      case False
      with \<open>k < length m2\<close> "1.prems" have "1 \<le> cnt (drop (k + 1) m2)"
        by (simp add: cnt_drop_step)
      from "1.IH" [OF \<open>k < length m2\<close> False this] False \<open>k < length m2\<close>
      show ?thesis
        by (simp add: cnt_drop_step unf)
    qed
  qed
qed

lemma transLoop_returns:
  "length m1 = length s1 \<Longrightarrow> cnt (drop i m1) = cnt (drop k m2) \<Longrightarrow>
   \<exists>t'. transLoop s1 s2 m1 m2 i k t = Inr t' \<and> t' \<le> t + cnt (drop i m1)"
proof (induction s1 s2 m1 m2 i k t rule: transLoop.induct)
  case (1 s1 s2 m1 m2 i k t)
  note unf = transLoop.simps [of s1 s2 m1 m2 i k t]
  show ?case
  proof (cases "i < length s1")
    case False
    then show ?thesis by (simp add: unf)
  next
    case True
    then have il: "i < length m1" using "1.prems" by simp
    show ?thesis
    proof (cases "m1 ! i")
      case False
      have "cnt (drop (i + 1) m1) = cnt (drop k m2)"
        using "1.prems" il False by (simp add: cnt_drop_step)
      from "1.IH"(1) [OF True _ "1.prems"(1) this] False True il
      show ?thesis by (simp add: cnt_drop_step unf)
    next
      case mi: True
      have "1 \<le> cnt (drop k m2)"
        using "1.prems" il mi by (simp add: cnt_drop_step)
      from skipUnmatched_finds [OF this] obtain k' where
        k': "skipUnmatched m2 k = Inr k'" "Suc (cnt (drop (Suc k') m2)) = cnt (drop k m2)"
        by blast
      have eq: "cnt (drop (i + 1) m1) = cnt (drop (k' + 1) m2)"
        using "1.prems" il mi k'(2) by (simp add: cnt_drop_step)
      from "1.IH"(2) [OF True _ k'(1) "1.prems"(1) eq] mi
      obtain t' where t': "transLoop s1 s2 m1 m2 (i + 1) (k' + 1) (if s1 ! i \<noteq> s2 ! k' then t + 1 else t) = Inr t'"
        "t' \<le> (if s1 ! i \<noteq> s2 ! k' then t + 1 else t) + cnt (drop (i + 1) m1)"
        by auto
      have "transLoop s1 s2 m1 m2 i k t = Inr t'"
        using True mi k'(1) t'(1) by (simp add: unf)
      moreover have "t' \<le> t + cnt (drop i m1)"
        using t'(2) il mi by (simp add: cnt_drop_step split: if_splits)
      ultimately show ?thesis by blast
    qed
  qed
qed

lemma cnt_replicate_False: "cnt (replicate n False) = 0"
  by (simp add: cnt_def)

lemma jaro_formula_bounds:
  fixes n l1 l2 t :: nat
  assumes "0 < n" "n \<le> l1" "n \<le> l2" "t \<le> n"
  shows "0 < (of_nat n / of_nat l1 + of_nat n / of_nat l2
               + (of_nat n - of_nat t / 2) / of_nat n) / (3::rat)"
    and "(of_nat n / of_nat l1 + of_nat n / of_nat l2
               + (of_nat n - of_nat t / 2) / of_nat n) / (3::rat) \<le> 1"
proof -
  have a: "0 < (of_nat n / of_nat l1 :: rat)" "(of_nat n / of_nat l1 :: rat) \<le> 1"
    using assms by (auto simp: divide_le_eq_1)
  have b: "0 < (of_nat n / of_nat l2 :: rat)" "(of_nat n / of_nat l2 :: rat) \<le> 1"
    using assms by (auto simp: divide_le_eq_1)
  have "(of_nat t :: rat) \<le> of_nat n"
    using assms by simp
  then have c: "0 < ((of_nat n - of_nat t / 2) / of_nat n :: rat)"
       "((of_nat n - of_nat t / 2) / of_nat n :: rat) \<le> 1"
    using assms by (auto simp: divide_le_eq_1)
  show "0 < (of_nat n / of_nat l1 + of_nat n / of_nat l2
               + (of_nat n - of_nat t / 2) / of_nat n) / (3::rat)"
    using a b c by simp
  show "(of_nat n / of_nat l1 + of_nat n / of_nat l2
               + (of_nat n - of_nat t / 2) / of_nat n) / (3::rat) \<le> 1"
    using a b c by simp
qed

text \<open>The state the matching phase ends in.\<close>

lemma matchLoop_initial:
  assumes "matchLoop s1 s2 w 0 (replicate (length s1) False, replicate (length s2) False, 0)
             = (m1, m2, n)"
  shows "length m1 = length s1 \<and> length m2 = length s2 \<and> cnt m1 = n \<and> cnt m2 = n"
  using matchLoop_inv [OF assms] by (simp add: cnt_replicate_False)

lemma jaroSimilarity_value:
  "\<exists>v. jaroSimilarity str1 str2 = Inr v \<and> 0 \<le> v \<and> v \<le> 1"
proof -
  let ?s1 = "trim (toLowerCase str1)" and ?s2 = "trim (toLowerCase str2)"
  let ?w = "nat (max 0 (int (max (length ?s1) (length ?s2)) div 2 - 1))"
  obtain m1 m2 n where ml:
    "matchLoop ?s1 ?s2 ?w 0 (replicate (length ?s1) False, replicate (length ?s2) False, 0)
       = (m1, m2, n)"
    by (cases "matchLoop ?s1 ?s2 ?w 0 (replicate (length ?s1) False, replicate (length ?s2) False, 0)")
  from matchLoop_initial [OF ml] have inv:
    "length m1 = length ?s1" "length m2 = length ?s2" "cnt m1 = n" "cnt m2 = n"
    by simp_all
  have n1: "n \<le> length ?s1" and n2: "n \<le> length ?s2"
    using inv cnt_le [of m1] cnt_le [of m2] by simp_all
  from transLoop_returns [of m1 ?s1 0 0 m2 ?s2 0] inv
  obtain t where t: "transLoop ?s1 ?s2 m1 m2 0 0 0 = Inr t" "t \<le> n"
    by auto
  show ?thesis
  proof (cases "?s1 = ?s2 \<or> length ?s1 = 0 \<or> length ?s2 = 0 \<or> n = 0")
    case True
    then show ?thesis
      by (auto simp: jaroSimilarity_def Let_def ml)
  next
    case False
    then have "0 < n" by simp
    let ?J = "(of_nat n / of_nat (length ?s1) + of_nat n / of_nat (length ?s2)
               + (of_nat n - of_nat t / 2) / of_nat n) / (3::rat)"
    have eq: "jaroSimilarity str1 str2 = Inr ?J"
      using False t(1) ml by (simp add: jaroSimilarity_def Let_def)
    have "0 \<le> ?J" "?J \<le> 1"
      using jaro_formula_bounds [OF \<open>0 < n\<close> n1 n2 t(2)] by simp_all
    with eq show ?thesis by blast
  qed
qed

lemma matchLoop_first:
  assumes ne: "s1 \<noteq> []" "s2 \<noteq> []" and hd: "s1 ! 0 = s2 ! 0"
    and ml: "matchLoop s1 s2 w 0 (replicate (length s1) False, replicate (length s2) False, 0)
               = (m1, m2, n)"
  shows "1 \<le> n"
proof -
  let ?r1 = "replicate (length s1) False" and ?r2 = "replicate (length s2) False"
  let ?end = "min (0 + w + 1) (length s2)"
  have e: "0 < ?end" using ne by simp
  have fm: "findMatch s1 s2 ?r2 0 (nat (max 0 (int 0 - int w))) ?end = Some 0"
    using e hd ne by (simp add: findMatch.simps [of s1 s2 ?r2 0 0])
  have step: "matchLoop s1 s2 w (0 + 1) (?r1[0 := True], ?r2[0 := True], 0 + 1) = (m1, m2, n)"
    using ml ne fm by (simp add: matchLoop.simps [of s1 s2 w 0 ?r1 ?r2 0] Let_def)
  have c1: "cnt (?r1[0 := True]) = 0 + 1"
    using cnt_update [of 0 ?r1] ne by (simp add: cnt_replicate_False)
  have c2: "cnt (?r2[0 := True]) = 0 + 1"
    using cnt_update [of 0 ?r2] ne by (simp add: cnt_replicate_False)
  have later: "\<forall>i'. 0 + 1 \<le> i' \<and> i' < length (?r1[0 := True]) \<longrightarrow> \<not> (?r1[0 := True]) ! i'"
    by auto
  from matchLoop_inv [OF step _ _ c1 c2 later] show ?thesis by simp
qed

lemma jaroSimilarity_positive:
  assumes ne: "trim (toLowerCase str1) \<noteq> []" "trim (toLowerCase str2) \<noteq> []"
    and hd: "trim (toLowerCase str1) ! 0 = trim (toLowerCase str2) ! 0"
  shows "\<exists>v. jaroSimilarity str1 str2 = Inr v \<and> 0 < v \<and> v \<le> 1"
proof -
  let ?s1 = "trim (toLowerCase str1)" and ?s2 = "trim (toLowerCase str2)"
  let ?w = "nat (max 0 (int (max (length ?s1) (length ?s2)) div 2 - 1))"
  obtain m1 m2 n where ml:
    "matchLoop ?s1 ?s2 ?w 0 (replicate (length ?s1) False, replicate (length ?s2) False, 0)
       = (m1, m2, n)"
    by (cases "matchLoop ?s1 ?s2 ?w 0 (replicate (length ?s1) False, replicate (length ?s2) False, 0)")
  from matchLoop_initial [OF ml] have inv:
    "length m1 = length ?s1" "length m2 = length ?s2" "cnt m1 = n" "cnt m2 = n"
    by simp_all
  have n1: "n \<le> length ?s1" and n2: "n \<le> length ?s2"
    using inv cnt_le [of m1] cnt_le [of m2] by simp_all
  have pos: "0 < n"
    using matchLoop_first [OF ne hd ml] by simp
  from transLoop_returns [of m1 ?s1 0 0 m2 ?s2 0] inv
  obtain t where t: "transLoop ?s1 ?s2 m1 m2 0 0 0 = Inr t" "t \<le> n"
    by auto
  show ?thesis
  proof (cases "?s1 = ?s2")
    case True
    then show ?thesis by (simp add: jaroSimilarity_def Let_def)
  next
    case False
    let ?J = "(of_nat n / of_nat (length ?s1) + of_nat n / of_nat (length ?s2)
               + (of_nat n - of_nat t / 2) / of_nat n) / (3::rat)"
    have eq: "jaroSimilarity str1 str2 = Inr ?J"
      using False ne pos t(1) ml by (simp add: jaroSimilarity_def Let_def)
    have "0 < ?J" "?J \<le> 1"
      using jaro_formula_bounds [OF pos n1 n2 t(2)] by simp_all
    with eq show ?thesis by blast
  qed
qed

lemma length_takeWhile_take:
  "length (takeWhile P (take m xs)) = min m (length (takeWhile P xs))"
proof (induction xs arbitrary: m)
  case Nil
  then show ?case by simp
next
  case (Cons x xs)
  then show ?case by (cases m) auto
qed

lemma prefixLoop_takeWhile:
  "m \<le> length s1 \<Longrightarrow> m \<le> length s2 \<Longrightarrow> i \<le> m \<Longrightarrow>
   prefixLoop s1 s2 m i p = p + length (takeWhile (\<lambda>(x, y). x = y) (drop i (take m (zip s1 s2))))"
proof (induction s1 s2 m i p rule: prefixLoop.induct)
  case (1 s1 s2 m i p)
  note unf = prefixLoop.simps [of s1 s2 m i p]
  show ?case
  proof (cases "i < m")
    case False
    then have "prefixLoop s1 s2 m i p = p" by (simp add: unf)
    moreover from False "1.prems" have "drop i (take m (zip s1 s2)) = []" by simp
    ultimately show ?thesis by simp
  next
    case True
    let ?zs = "take m (zip s1 s2)"
    have len: "i < length ?zs" using True "1.prems" by simp
    have nth: "?zs ! i = (s1 ! i, s2 ! i)" using True "1.prems" by simp
    have dr: "drop i ?zs = (s1 ! i, s2 ! i) # drop (i + 1) ?zs"
      using Cons_nth_drop_Suc [OF len] nth by simp
    show ?thesis
    proof (cases "s1 ! i = s2 ! i")
      case eq: True
      from "1.IH" [OF True eq "1.prems"(1,2)] True
      have "prefixLoop s1 s2 m (i + 1) (p + 1)
              = p + 1 + length (takeWhile (\<lambda>(x, y). x = y) (drop (i + 1) ?zs))"
        by simp
      then show ?thesis using True eq by (simp add: unf dr)
    next
      case False
      then show ?thesis using True by (simp add: unf dr)
    qed
  qed
qed

lemma commonPrefixLength_le: "commonPrefixLength a b \<le> min (length a) (length b)"
proof -
  have "length (takeWhile (\<lambda>(x, y). x = y) (zip a b)) \<le> length (zip a b)"
    by (rule length_takeWhile_le)
  then show ?thesis by (simp add: commonPrefixLength_def)
qed

lemma prefixLoop_commonPrefix:
  "prefixLoop s1 s2 (min 4 (min (length s1) (length s2))) 0 0 = min 4 (commonPrefixLength s1 s2)"
proof -
  let ?m = "min 4 (min (length s1) (length s2))"
  have "prefixLoop s1 s2 ?m 0 0 = length (takeWhile (\<lambda>(x, y). x = y) (take ?m (zip s1 s2)))"
    using prefixLoop_takeWhile [of ?m s1 s2 0 0] by simp
  also have "\<dots> = min ?m (commonPrefixLength s1 s2)"
    by (simp add: length_takeWhile_take commonPrefixLength_def)
  also have "\<dots> = min 4 (commonPrefixLength s1 s2)"
    using commonPrefixLength_le [of s1 s2] by (auto simp: min_def)
  finally show ?thesis .
qed

lemma commonPrefixLength_pos:
  "1 \<le> commonPrefixLength a b \<Longrightarrow> a \<noteq> [] \<and> b \<noteq> [] \<and> a ! 0 = b ! 0"
  by (cases a; cases b) (auto simp: commonPrefixLength_def split: if_splits)

lemma jaroWinklerSimilarity_value:
  "jaroSimilarity str1 str2 = Inr j \<Longrightarrow>
   jaroWinklerSimilarity str1 str2 prefixScale =
     Inr (if j = 0 then 0
          else j + of_nat (min 4 (commonPrefixLength (trim (toLowerCase str1)) (trim (toLowerCase str2))))
                   * min prefixScale (1 / 4) * (1 - j))"
  by (simp add: jaroWinklerSimilarity_def Let_def prefixLoop_commonPrefix)

text \<open>
  Claim C8. \<open>jaroSimilarity\<close> returns a value \<open>j\<close> (its transposition loop always ends).
  When \<open>j\<close> is 0, \<open>jaroWinklerSimilarity\<close> returns 0. When the case-folded, trimmed
  strings share a non-empty common prefix, \<open>jaroWinklerSimilarity\<close> returns \<open>j\<close> plus the
  boost: the length of the common prefix, capped at 4, times \<open>min(prefixScale, 0.25)\<close>
  times \<open>1 - j\<close>; and at the default prefix scale 0.1 the result is at least \<open>j\<close>.
\<close>

theorem jaroWinkler_boost:
  "\<exists>j. jaroSimilarity str1 str2 = Inr j \<and>
       (j = 0 \<longrightarrow> jaroWinklerSimilarity str1 str2 prefixScale = Inr 0) \<and>
       (1 \<le> commonPrefixLength (trim (toLowerCase str1)) (trim (toLowerCase str2)) \<longrightarrow>
          jaroWinklerSimilarity str1 str2 prefixScale =
            Inr (j + of_nat (min 4 (commonPrefixLength (trim (toLowerCase str1)) (trim (toLowerCase str2))))
                     * min prefixScale (1 / 4) * (1 - j)) \<and>
          (\<exists>jw. jaroWinklerSimilarity str1 str2 (1 / 10) = Inr jw \<and> j \<le> jw))"
proof -
  let ?s1 = "trim (toLowerCase str1)" and ?s2 = "trim (toLowerCase str2)"
  let ?p = "min 4 (commonPrefixLength ?s1 ?s2)"
  obtain j where j: "jaroSimilarity str1 str2 = Inr j" "0 \<le> j" "j \<le> 1"
    using jaroSimilarity_value by blast
  have zero: "j = 0 \<longrightarrow> jaroWinklerSimilarity str1 str2 prefixScale = Inr 0"
    using jaroWinklerSimilarity_value [OF j(1)] by simp
  have boost: "jaroWinklerSimilarity str1 str2 prefixScale =
            Inr (j + of_nat ?p * min prefixScale (1 / 4) * (1 - j)) \<and>
          (\<exists>jw. jaroWinklerSimilarity str1 str2 (1 / 10) = Inr jw \<and> j \<le> jw)"
    if pre: "1 \<le> commonPrefixLength ?s1 ?s2"
  proof -
    from commonPrefixLength_pos [OF pre] jaroSimilarity_positive [of str1 str2] j(1)
    have nz: "j \<noteq> 0" by auto
    have f: "jaroWinklerSimilarity str1 str2 sc = Inr (j + of_nat ?p * min sc (1 / 4) * (1 - j))" for sc
      using jaroWinklerSimilarity_value [OF j(1), of sc] nz by simp
    have "0 \<le> of_nat ?p * min (1 / 10) (1 / 4) * (1 - j)"
      using j(3) by simp
    then have "j \<le> j + of_nat ?p * min (1 / 10) (1 / 4) * (1 - j)"
      by simp
    with f show ?thesis by blast
  qed
  from j(1) zero boost show ?thesis by blast
qed

lemma jaro_MARTHA: "jaroSimilarity ''MARTHA'' ''MARHTA'' = Inr (17 / 18)"
  by code_simp
lemma prefix_MARTHA: "commonPrefixLength (trim (toLowerCase ''MARTHA'')) (trim (toLowerCase ''MARHTA'')) = 3"
  by code_simp

theorem jaroWinkler_boost_witness:
  "jaroSimilarity ''MARTHA'' ''MARHTA'' = Inr (17 / 18) \<and>
   commonPrefixLength (trim (toLowerCase ''MARTHA'')) (trim (toLowerCase ''MARHTA'')) = 3 \<and>
   jaroWinklerSimilarity ''MARTHA'' ''MARHTA'' (1 / 10) = Inr (173 / 180)"
proof -
  from jaroWinkler_boost [of "''MARTHA''" "''MARHTA''" "1 / 10"] obtain j where
    j: "jaroSimilarity ''MARTHA'' ''MARHTA'' = Inr j"
    and b: "1 \<le> commonPrefixLength (trim (toLowerCase ''MARTHA'')) (trim (toLowerCase ''MARHTA'')) \<longrightarrow>
          jaroWinklerSimilarity ''MARTHA'' ''MARHTA'' (1 / 10) =
            Inr (j + of_nat (min 4 (commonPrefixLength (trim (toLowerCase ''MARTHA'')) (trim (toLowerCase ''MARHTA''))))
                     * min (1 / 10) (1 / 4) * (1 - j))"
    by blast
  from j jaro_MARTHA have "j = 17 / 18" by simp
  with b prefix_MARTHA have "jaroWinklerSimilarity ''MARTHA'' ''MARHTA'' (1 / 10) = Inr (173 / 180)"
    by simp
  with jaro_MARTHA prefix_MARTHA show ?thesis by simp
qed

section \<open>Properties of Deduplicator\<close>

text \<open>The loops of \<open>findFuzzyDuplicates\<close> compute the policy of the specification.\<close>

lemma fuzzyMatch_returns: "fuzzyMatch a b = Inr (fuzzyMatchValue a b)"
proof (cases "length a < 10 \<and> length b < 10")
  case True
  obtain j where "jaroSimilarity a b = Inr j"
    using jaroSimilarity_value by blast
  from jaroWinklerSimilarity_value [OF this, of "1 / 10"] True show ?thesis
    by (simp add: fuzzyMatch_def fuzzyMatchValue_def)
next
  case False
  then show ?thesis
    by (auto simp: fuzzyMatch_def fuzzyMatchValue_def)
qed

lemma fieldLoop_spec:
  "fieldLoop item1 item2 fs (tot, n) =
     Inr (tot + sum_list (map (\<lambda>f. fuzzyMatchValue (fieldString item1 f) (fieldString item2 f))
                             (comparedFields item1 item2 fs)),
          n + length (comparedFields item1 item2 fs))"
proof (induction fs arbitrary: tot n)
  case Nil
  then show ?case by (simp add: comparedFields_def)
next
  case (Cons f fs)
  show ?case
  proof (cases "fieldString item1 f = [] \<and> fieldString item2 f = []")
    case True
    then show ?thesis
      using Cons.IH [of tot n] by (simp add: comparedFields_def fieldString_def)
  next
    case False
    then show ?thesis
      using Cons.IH [of "tot + fuzzyMatchValue (fieldString item1 f) (fieldString item2 f)" "n + 1"]
      by (auto simp: comparedFields_def fieldString_def fuzzyMatch_returns Let_def)
  qed
qed

lemma averageSimilarity_spec:
  "averageSimilarity item1 item2 fs = Inr (specAverage item1 item2 fs)"
  by (simp add: averageSimilarity_def fieldLoop_spec specAverage_def Let_def)

lemma laterDuplicates_done:
  "\<not> j < length items \<Longrightarrow> laterDuplicates items fs threshold i j P = []"
  by (simp add: laterDuplicates_def)

lemma laterDuplicates_step:
  "j < length items \<Longrightarrow>
   laterDuplicates items fs threshold i j P =
     (if j \<notin> P \<and> numGreaterEq (Num (specAverage (items ! i) (items ! j) fs)) threshold
      then [j] else [])
     @ laterDuplicates items fs threshold i (Suc j) P"
  by (simp add: laterDuplicates_def upt_conv_Cons)

lemma laterDuplicates_insert:
  "laterDuplicates items fs threshold i (Suc j) (insert j P)
     = laterDuplicates items fs threshold i (Suc j) P"
  unfolding laterDuplicates_def by (rule filter_cong) auto

lemma jLoop_spec:
  "jLoop items fs threshold i j (g, P) =
     Inr (g\<lparr>duplicateIndices := duplicateIndices g @ laterDuplicates items fs threshold i j P,
            similarityScores := similarityScores g
               @ map (\<lambda>k. specAverage (items ! i) (items ! k) fs)
                   (laterDuplicates items fs threshold i j P)\<rparr>,
          P \<union> set (laterDuplicates items fs threshold i j P))"
proof (induction items fs threshold i j "(g, P)" arbitrary: g P rule: jLoop.induct)
  case (1 items fs threshold i j g P)
  note unf = jLoop.simps [of items fs threshold i j g P]
  show ?case
  proof (cases "j < length items")
    case False
    then show ?thesis by (simp add: unf laterDuplicates_done)
  next
    case True
    note step = laterDuplicates_step [OF True, of fs threshold i P]
    show ?thesis
    proof (cases "j \<in> P")
      case inP: True
      from "1.hyps"(1) [OF True inP] True inP show ?thesis
        by (simp add: unf step)
    next
      case notP: False
      show ?thesis
      proof (cases "numGreaterEq (Num (specAverage (items ! i) (items ! j) fs)) threshold")
        case ge: True
        from "1.hyps"(2) [OF True notP averageSimilarity_spec ge] True notP ge show ?thesis
          by (simp add: unf step averageSimilarity_spec laterDuplicates_insert)
      next
        case lt: False
        from "1.hyps"(3) [OF True notP averageSimilarity_spec lt] True notP lt show ?thesis
          by (simp add: unf step averageSimilarity_spec)
      qed
    qed
  qed
qed

lemma iLoop_spec:
  "iLoop items fs threshold i (gs, P) = Inr (gs @ specGroups items fs threshold i P)"
proof (induction items fs threshold i "(gs, P)" arbitrary: gs P rule: iLoop.induct)
  case (1 items fs threshold i gs P)
  note unf = iLoop.simps [of items fs threshold i gs P]
  note sunf = specGroups.simps [of items fs threshold i P]
  show ?case
  proof (cases "i < length items")
    case False
    then show ?thesis by (simp add: unf sunf)
  next
    case True
    show ?thesis
    proof (cases "i \<in> P")
      case inP: True
      from "1.hyps"(1) [OF True inP] True inP show ?thesis
        by (simp add: unf sunf)
    next
      case notP: False
      let ?dups = "laterDuplicates items fs threshold i (Suc i) P"
      let ?g = "\<lparr>keepIndex = i, duplicateIndices = ?dups,
                  similarityScores = map (\<lambda>k. specAverage (items ! i) (items ! k) fs) ?dups\<rparr>"
      have jl: "jLoop items fs threshold i (Suc i)
                  (\<lparr>keepIndex = i, duplicateIndices = [], similarityScores = []\<rparr>, P)
                = Inr (?g, P \<union> set ?dups)"
        by (simp add: jLoop_spec)
      have jl': "jLoop items fs threshold i (i + 1)
                  (\<lparr>keepIndex = i, duplicateIndices = [], similarityScores = []\<rparr>, P)
                = Inr (?g, P \<union> set ?dups)"
        using jl by simp
      from "1.hyps"(2) [OF True notP jl' refl] True notP show ?thesis
        by (simp add: unf sunf jl Let_def)
    qed
  qed
qed

lemma findFuzzyDuplicates_spec:
  "findFuzzyDuplicates items fs threshold = Inr (specGroups items fs threshold 0 {})"
  by (simp add: findFuzzyDuplicates_def iLoop_spec)

lemma laterDuplicates_set:
  "set (laterDuplicates items fs threshold i j P)
     \<subseteq> {k. j \<le> k \<and> k < length items \<and> k \<notin> P}"
  by (auto simp: laterDuplicates_def)

lemma laterDuplicates_distinct: "distinct (laterDuplicates items fs threshold i j P)"
  by (simp add: laterDuplicates_def)

lemma specGroups_groups:
  "g \<in> set (specGroups items fs threshold i P) \<Longrightarrow>
     length (duplicateIndices g) = length (similarityScores g) \<and>
     duplicateIndices g \<noteq> [] \<and> distinct (groupIndices g) \<and>
     (\<forall>k \<in> set (duplicateIndices g). keepIndex g < k) \<and>
     (\<forall>x \<in> set (groupIndices g). i \<le> x \<and> x < length items \<and> x \<notin> P)"
proof (induction items fs threshold i P rule: specGroups.induct)
  case (1 items fs threshold i P)
  note sunf = specGroups.simps [of items fs threshold i P]
  show ?case
  proof (cases "i < length items")
    case False
    with "1.prems" show ?thesis by (simp add: sunf)
  next
    case True
    show ?thesis
    proof (cases "i \<in> P")
      case inP: True
      with True "1.prems" have "g \<in> set (specGroups items fs threshold (i + 1) P)"
        by (simp add: sunf)
      from "1.IH"(1) [OF True inP this] show ?thesis by auto
    next
      case notP: False
      let ?dups = "laterDuplicates items fs threshold i (i + 1) P"
      let ?g = "\<lparr>keepIndex = i, duplicateIndices = ?dups,
                  similarityScores = map (\<lambda>k. specAverage (items ! i) (items ! k) fs) ?dups\<rparr>"
      from True notP "1.prems" consider
          (new) "?dups \<noteq> []" "g = ?g"
        | (rest) "g \<in> set (specGroups items fs threshold (i + 1) (P \<union> set ?dups))"
        by (auto simp: sunf Let_def split: if_splits)
      then show ?thesis
      proof cases
        case new
        have sub: "set ?dups \<subseteq> {k. i + 1 \<le> k \<and> k < length items \<and> k \<notin> P}"
          by (rule laterDuplicates_set)
        have "distinct ?dups" by (rule laterDuplicates_distinct)
        with new sub True notP show ?thesis
          by (auto simp: groupIndices_def)
      next
        case rest
        from "1.IH"(2) [OF True notP refl rest] show ?thesis by auto
      qed
    qed
  qed
qed

lemma specGroups_distinct:
  "distinct (concat (map groupIndices (specGroups items fs threshold i P)))"
proof (induction items fs threshold i P rule: specGroups.induct)
  case (1 items fs threshold i P)
  note sunf = specGroups.simps [of items fs threshold i P]
  show ?case
  proof (cases "i < length items")
    case False
    then show ?thesis by (simp add: sunf)
  next
    case True
    show ?thesis
    proof (cases "i \<in> P")
      case inP: True
      from "1.IH"(1) [OF True inP] True inP show ?thesis by (simp add: sunf)
    next
      case notP: False
      let ?dups = "laterDuplicates items fs threshold i (i + 1) P"
      let ?rest = "specGroups items fs threshold (i + 1) (P \<union> set ?dups)"
      have IH: "distinct (concat (map groupIndices ?rest))"
        by (rule "1.IH"(2) [OF True notP refl])
      have restidx: "i + 1 \<le> x \<and> x \<notin> set ?dups"
        if "x \<in> set (concat (map groupIndices ?rest))" for x
      proof -
        from that obtain g where g: "g \<in> set ?rest" "x \<in> set (groupIndices g)"
          by auto
        from specGroups_groups [OF g(1)] g(2) show ?thesis by auto
      qed
      have sub: "set ?dups \<subseteq> {k. i + 1 \<le> k \<and> k < length items \<and> k \<notin> P}"
        by (rule laterDuplicates_set)
      have d: "distinct ?dups" by (rule laterDuplicates_distinct)
      have a1: "i \<notin> set ?dups" using sub by auto
      have a2: "i \<notin> set (concat (map groupIndices ?rest))"
        using restidx [of i] by auto
      have a3: "set ?dups \<inter> set (concat (map groupIndices ?rest)) = {}"
        using restidx by blast
      have "distinct ((i # ?dups) @ concat (map groupIndices ?rest))"
        using IH d a1 a2 a3 by simp
      then have both: "distinct (?dups @ concat (map groupIndices ?rest))"
        "distinct ((i # ?dups) @ concat (map groupIndices ?rest))"
        by simp_all
      let ?g = "\<lparr>keepIndex = i, duplicateIndices = ?dups,
                  similarityScores = map (\<lambda>k. specAverage (items ! i) (items ! k) fs) ?dups\<rparr>"
      have gi: "groupIndices ?g = i # ?dups"
        by (simp add: groupIndices_def)
      have eq: "specGroups items fs threshold i P = (if ?dups = [] then [] else [?g]) @ ?rest"
        using True notP by (simp add: sunf Let_def)
      show ?thesis
      proof (cases "?dups = []")
        case True
        with eq IH show ?thesis by simp
      next
        case False
        with eq have "concat (map groupIndices (specGroups items fs threshold i P))
            = (i # ?dups) @ concat (map groupIndices ?rest)"
          using gi by simp
        with both(2) show ?thesis by simp
      qed
    qed
  qed
qed

lemma fold_insert_set: "fold insert xs S = S \<union> set xs"
  by (induction xs arbitrary: S) auto

lemma indicesToRemove_duplicateSet:
  "fold (\<lambda>group removed. fold insert (duplicateIndices group) removed) groups S
     = S \<union> duplicateSet groups"
  by (induction groups arbitrary: S) (auto simp: duplicateSet_def fold_insert_set)

lemma deduplicateFuzzy_spec:
  "deduplicateFuzzy items fs threshold =
     Inr \<lparr>deduplicated =
            map (\<lambda>index. items ! index)
              (filter (\<lambda>index. index \<notin> duplicateSet (specGroups items fs threshold 0 {}))
                 [0 ..< length items]),
          removedCount = card (duplicateSet (specGroups items fs threshold 0 {})),
          duplicateGroups = specGroups items fs threshold 0 {}\<rparr>"
  by (simp add: deduplicateFuzzy_def findFuzzyDuplicates_spec indicesToRemove_duplicateSet Let_def)

lemma example_groups:
  "specGroups exampleRecords [''name''] (Num (8 / 10)) 0 {}
     = [\<lparr>keepIndex = 0, duplicateIndices = [1], similarityScores = [9 / 10]\<rparr>]"
  by code_simp

lemma example_average:
  "averageSimilarity (exampleRecords ! 0) (exampleRecords ! 1) [''name''] = Inr (9 / 10)"
  by code_simp

lemma keptIndices_subseq:
  "subseq (map (\<lambda>k. xs ! k) (filter P [0 ..< length xs])) xs"
proof -
  have "map (\<lambda>k. xs ! k) (filter P [0 ..< length xs])
          = nths (map (\<lambda>k. xs ! k) [0 ..< length xs])
              {i. i < length [0 ..< length xs] \<and> P ([0 ..< length xs] ! i)}"
    by (simp only: filter_eq_nths nths_map)
  also have "map (\<lambda>k. xs ! k) [0 ..< length xs] = xs"
    by (rule map_nth)
  finally show ?thesis
    using subseq_conv_nths by blast
qed

text \<open>
  Claim C1. The average that the code computes for a pair of records is the average of
  \<open>fuzzyMatch\<close> over the named fields, without the fields where both string-coerced
  values are empty, and 0 when every field is left out (\<open>specAverage\<close>). For every
  record sequence, field list and threshold \<open>deduplicateFuzzy\<close> returns; its groups are
  those of the one-pass policy \<open>specGroups\<close>: each unprocessed \<open>i\<close> against every later
  unprocessed \<open>j\<close>, which joins the group of \<open>i\<close> and is marked processed exactly when
  the average is at least the threshold; the duplicates of a group come after its keep
  index; and the deduplicated sequence is the records at the kept indices in increasing
  index order, a subsequence of the input. Numbers are exact rationals.
\<close>

theorem deduplicateFuzzy_policy:
  "averageSimilarity item1 item2 fs = Inr (specAverage item1 item2 fs) \<and>
   (\<exists>r. deduplicateFuzzy items fs threshold = Inr r \<and>
        duplicateGroups r = specGroups items fs threshold 0 {} \<and>
        (\<forall>g \<in> set (duplicateGroups r). \<forall>k \<in> set (duplicateIndices g). keepIndex g < k) \<and>
        (\<exists>kept. sorted_wrt (<) kept \<and>
                set kept = {k. k < length items \<and> k \<notin> duplicateSet (duplicateGroups r)} \<and>
                deduplicated r = map (\<lambda>k. items ! k) kept) \<and>
        subseq (deduplicated r) items)"
proof -
  let ?gs = "specGroups items fs threshold 0 {}"
  let ?kept = "filter (\<lambda>index. index \<notin> duplicateSet ?gs) [0 ..< length items]"
  let ?r = "\<lparr>deduplicated = map (\<lambda>index. items ! index) ?kept,
             removedCount = card (duplicateSet ?gs), duplicateGroups = ?gs\<rparr>"
  have r: "deduplicateFuzzy items fs threshold = Inr ?r"
    by (rule deduplicateFuzzy_spec)
  have later: "\<forall>g \<in> set ?gs. \<forall>k \<in> set (duplicateIndices g). keepIndex g < k"
    using specGroups_groups [of _ items fs threshold 0 "{}"] by blast
  have sorted: "sorted_wrt (<) ?kept"
    by (simp add: sorted_wrt_filter)
  have set: "set ?kept = {k. k < length items \<and> k \<notin> duplicateSet ?gs}"
    by auto
  have sub: "subseq (map (\<lambda>index. items ! index) ?kept) items"
    by (rule keptIndices_subseq)
  have "duplicateGroups ?r = ?gs \<and>
        (\<forall>g \<in> set (duplicateGroups ?r). \<forall>k \<in> set (duplicateIndices g). keepIndex g < k) \<and>
        (\<exists>kept. sorted_wrt (<) kept \<and>
                set kept = {k. k < length items \<and> k \<notin> duplicateSet (duplicateGroups ?r)} \<and>
                deduplicated ?r = map (\<lambda>k. items ! k) kept) \<and>
        subseq (deduplicated ?r) items"
    using later sorted set sub by auto
  with r averageSimilarity_spec show ?thesis by blast
qed

theorem deduplicateFuzzy_policy_witness:
  "averageSimilarity (exampleRecords ! 0) (exampleRecords ! 1) [''name''] = Inr (9 / 10) \<and>
   (\<exists>r. deduplicateFuzzy exampleRecords [''name''] (Num (8 / 10)) = Inr r \<and>
        duplicateGroups r = [\<lparr>keepIndex = 0, duplicateIndices = [1], similarityScores = [9 / 10]\<rparr>] \<and>
        (\<exists>kept. set kept = {0, 2} \<and> deduplicated r = map (\<lambda>k. exampleRecords ! k) kept))"
proof -
  from deduplicateFuzzy_policy [of "exampleRecords ! 0" "exampleRecords ! 1" "[''name'']"
        exampleRecords "Num (8 / 10)"]
  obtain r kept where r: "deduplicateFuzzy exampleRecords [''name''] (Num (8 / 10)) = Inr r"
    "duplicateGroups r = specGroups exampleRecords [''name''] (Num (8 / 10)) 0 {}"
    "set kept = {k. k < length exampleRecords \<and> k \<notin> duplicateSet (duplicateGroups r)}"
    "deduplicated r = map (\<lambda>k. exampleRecords ! k) kept"
    by blast
  have len: "length exampleRecords = 3"
    by (simp add: exampleRecords_def)
  have "set kept = {0, 2}"
    unfolding r(3) r(2) example_groups len by (auto simp: duplicateSet_def)
  with r example_groups example_average show ?thesis by auto
qed

lemma groupIndices_nonempty: "groupIndices g \<noteq> []"
  by (simp add: groupIndices_def)

lemma distinct_concat_disjoint:
  assumes d: "distinct (concat xss)" and ne: "\<forall>xs \<in> set xss. xs \<noteq> []"
    and pq: "p < length xss" "q < length xss" "p \<noteq> q"
  shows "set (xss ! p) \<inter> set (xss ! q) = {}"
proof -
  have "removeAll [] xss = xss"
    using ne by (intro removeAll_id) auto
  with d have dist: "distinct xss"
    and disj: "\<And>ys zs. ys \<in> set xss \<Longrightarrow> zs \<in> set xss \<Longrightarrow> ys \<noteq> zs \<Longrightarrow> set ys \<inter> set zs = {}"
    by (auto simp: distinct_concat_iff)
  from dist pq have "xss ! p \<noteq> xss ! q"
    by (simp add: nth_eq_iff_index_eq)
  with disj [of "xss ! p" "xss ! q"] pq show ?thesis by simp
qed

lemma groups_disjoint:
  assumes d: "distinct (concat (map groupIndices gs))"
    and pq: "p < length gs" "q < length gs" "p \<noteq> q"
  shows "set (groupIndices (gs ! p)) \<inter> set (groupIndices (gs ! q)) = {}"
  using distinct_concat_disjoint [of "map groupIndices gs" p q] d pq
  by (simp add: groupIndices_nonempty)

lemma duplicate_of_one_group:
  assumes d: "distinct (concat (map groupIndices gs))"
    and g: "g \<in> set gs" "i \<in> set (duplicateIndices g)"
    and h: "h \<in> set gs" "i \<in> set (duplicateIndices h)"
  shows "g = h"
proof (rule ccontr)
  assume "g \<noteq> h"
  from g(1) h(1) obtain p q where pq: "p < length gs" "gs ! p = g" "q < length gs" "gs ! q = h"
    by (auto simp: in_set_conv_nth)
  with \<open>g \<noteq> h\<close> have "p \<noteq> q" by auto
  from groups_disjoint [OF d pq(1) pq(3) this] pq g(2) h(2) show False
    by (auto simp: groupIndices_def)
qed

text \<open>
  Claim C2. For every input \<open>deduplicateFuzzy\<close> returns, and in its result every group has
  as many similarity scores as duplicate indices and lists no index twice; the index sets
  of two different groups (keep index and duplicate indices together) are disjoint; and
  every input index is either kept in the output sequence and a duplicate of no group, or
  not kept and a duplicate of exactly one group.
\<close>

theorem deduplicateFuzzy_invariants:
  "\<exists>r. deduplicateFuzzy items fs threshold = Inr r \<and>
       (\<forall>g \<in> set (duplicateGroups r).
           length (duplicateIndices g) = length (similarityScores g) \<and> distinct (groupIndices g)) \<and>
       (\<forall>p q. p < length (duplicateGroups r) \<and> q < length (duplicateGroups r) \<and> p \<noteq> q \<longrightarrow>
           set (groupIndices (duplicateGroups r ! p)) \<inter> set (groupIndices (duplicateGroups r ! q)) = {}) \<and>
       (\<exists>kept. deduplicated r = map (\<lambda>k. items ! k) kept \<and> distinct kept \<and>
          (\<forall>i. i < length items \<longrightarrow>
             (i \<in> set kept \<and> \<not> (\<exists>g \<in> set (duplicateGroups r). i \<in> set (duplicateIndices g))) \<or>
             (i \<notin> set kept \<and> (\<exists>!g. g \<in> set (duplicateGroups r) \<and> i \<in> set (duplicateIndices g)))))"
proof -
  let ?gs = "specGroups items fs threshold 0 {}"
  let ?kept = "filter (\<lambda>index. index \<notin> duplicateSet ?gs) [0 ..< length items]"
  let ?r = "\<lparr>deduplicated = map (\<lambda>index. items ! index) ?kept,
             removedCount = card (duplicateSet ?gs), duplicateGroups = ?gs\<rparr>"
  have r: "deduplicateFuzzy items fs threshold = Inr ?r"
    by (rule deduplicateFuzzy_spec)
  have d: "distinct (concat (map groupIndices ?gs))"
    by (rule specGroups_distinct)
  have a: "\<forall>g \<in> set ?gs.
           length (duplicateIndices g) = length (similarityScores g) \<and> distinct (groupIndices g)"
    using specGroups_groups [of _ items fs threshold 0 "{}"] by blast
  have b: "\<forall>p q. p < length ?gs \<and> q < length ?gs \<and> p \<noteq> q \<longrightarrow>
           set (groupIndices (?gs ! p)) \<inter> set (groupIndices (?gs ! q)) = {}"
    using groups_disjoint [OF d] by blast
  have c: "(i \<in> set ?kept \<and> \<not> (\<exists>g \<in> set ?gs. i \<in> set (duplicateIndices g))) \<or>
             (i \<notin> set ?kept \<and> (\<exists>!g. g \<in> set ?gs \<and> i \<in> set (duplicateIndices g)))"
    if i: "i < length items" for i
  proof (cases "i \<in> duplicateSet ?gs")
    case True
    then obtain g where g: "g \<in> set ?gs" "i \<in> set (duplicateIndices g)"
      by (auto simp: duplicateSet_def)
    then have "\<exists>!g. g \<in> set ?gs \<and> i \<in> set (duplicateIndices g)"
      using duplicate_of_one_group [OF d] by blast
    with True show ?thesis by simp
  next
    case False
    then have "\<not> (\<exists>g \<in> set ?gs. i \<in> set (duplicateIndices g))"
      by (auto simp: duplicateSet_def)
    with False i show ?thesis by simp
  qed
  have "(\<forall>g \<in> set (duplicateGroups ?r).
           length (duplicateIndices g) = length (similarityScores g) \<and> distinct (groupIndices g)) \<and>
       (\<forall>p q. p < length (duplicateGroups ?r) \<and> q < length (duplicateGroups ?r) \<and> p \<noteq> q \<longrightarrow>
           set (groupIndices (duplicateGroups ?r ! p)) \<inter> set (groupIndices (duplicateGroups ?r ! q)) = {}) \<and>
       (\<exists>kept. deduplicated ?r = map (\<lambda>k. items ! k) kept \<and> distinct kept \<and>
          (\<forall>i. i < length items \<longrightarrow>
             (i \<in> set kept \<and> \<not> (\<exists>g \<in> set (duplicateGroups ?r). i \<in> set (duplicateIndices g))) \<or>
             (i \<notin> set kept \<and> (\<exists>!g. g \<in> set (duplicateGroups ?r) \<and> i \<in> set (duplicateIndices g)))))"
  proof (intro conjI)
    show "\<exists>kept. deduplicated ?r = map (\<lambda>k. items ! k) kept \<and> distinct kept \<and>
          (\<forall>i. i < length items \<longrightarrow>
             (i \<in> set kept \<and> \<not> (\<exists>g \<in> set (duplicateGroups ?r). i \<in> set (duplicateIndices g))) \<or>
             (i \<notin> set kept \<and> (\<exists>!g. g \<in> set (duplicateGroups ?r) \<and> i \<in> set (duplicateIndices g))))"
      using c by (intro exI [of _ ?kept]) simp
  qed (use a b in simp_all)
  with r show ?thesis by blast
qed

lemma example_result:
  "deduplicateFuzzy exampleRecords [''name''] (Num (8 / 10)) =
     Inr \<lparr>deduplicated = [exampleRecords ! 0, exampleRecords ! 2], removedCount = 1,
          duplicateGroups = [\<lparr>keepIndex = 0, duplicateIndices = [1], similarityScores = [9 / 10]\<rparr>]\<rparr>"
proof -
  have len: "length exampleRecords = 3"
    by (simp add: exampleRecords_def)
  have three: "[0 ..< 3] = [0, 1, 2::nat]"
    by (simp add: upt_rec)
  show ?thesis
    unfolding deduplicateFuzzy_spec example_groups len three
    by (simp add: duplicateSet_def)
qed

theorem deduplicateFuzzy_invariants_witness:
  "\<exists>r. deduplicateFuzzy exampleRecords [''name''] (Num (8 / 10)) = Inr r \<and>
       map duplicateIndices (duplicateGroups r) = [[1]] \<and>
       map similarityScores (duplicateGroups r) = [[9 / 10]] \<and>
       map keepIndex (duplicateGroups r) = [0] \<and>
       deduplicated r = [exampleRecords ! 0, exampleRecords ! 2] \<and> removedCount r = 1"
  using deduplicateFuzzy_invariants [of exampleRecords "[''name'']" "Num (8 / 10)"] example_result
  by auto








section \<open>Properties of PhoneParser\<close>

text \<open>
  Claim C9, as the code has it. When the string left after the extension is taken out has
  fewer than 7 or more than 15 digits, \<open>parsePhoneNumber\<close> returns a fully populated
  result: \<open>e164\<close>, \<open>national\<close>, \<open>international\<close>, \<open>countryCode\<close>, \<open>areaCode\<close> and
  \<open>localNumber\<close> are empty and \<open>isValid\<close> is false; \<open>original\<close> is the input and
  \<open>extension\<close> is what the first step extracted.
\<close>

theorem parsePhoneNumber_out_of_range:
  assumes "length (filter isDigit (snd (extractExtension phone))) < 7 \<or>
           15 < length (filter isDigit (snd (extractExtension phone)))"
  shows "parsePhoneNumber (JStr phone) defaultCountryCode =
           \<lparr>original = JStr phone, e164 = [], national = [], international = [],
            countryCode = [], areaCode = [], localNumber = [],
            extension = fst (extractExtension phone), isValid = False\<rparr>"
proof (cases "phone = []")
  case True
  then show ?thesis
    by (simp add: orEmpty_def extractExtension_def)
next
  case False
  obtain ext rest where e: "extractExtension phone = (ext, rest)"
    by (cases "extractExtension phone")
  with assms False show ?thesis
    by (auto simp: orEmpty_def Let_def)
qed

theorem parsePhoneNumber_out_of_range_witness:
  "extractExtension ''call ext 5'' = (''5'', ''call'') \<and>
   parsePhoneNumber (JStr ''call ext 5'') ''1'' =
     \<lparr>original = JStr ''call ext 5'', e164 = [], national = [], international = [],
      countryCode = [], areaCode = [], localNumber = [], extension = ''5'', isValid = False\<rparr>"
proof -
  have e: "extractExtension ''call ext 5'' = (''5'', ''call'')"
    by code_simp
  from parsePhoneNumber_out_of_range [of "''call ext 5''" "''1''"] e show ?thesis
    by simp
qed

text \<open>
  Claim C9 as stated fails: with no digit left after the extension is taken out, the
  result still carries the extension and the original input, so not every string field
  is empty.
\<close>

theorem parsePhoneNumber_all_empty_counterexample:
  "length (filter isDigit (snd (extractExtension ''call ext 5''))) < 7 \<and>
   extension (parsePhoneNumber (JStr ''call ext 5'') ''1'') = ''5'' \<and>
   original (parsePhoneNumber (JStr ''call ext 5'') ''1'') = JStr ''call ext 5''"
  by code_simp

section \<open>Properties of KeyTransformer\<close>

text \<open>
  A key that \<open>toSnakeCase\<close> returns has lowercase letters, digits and underscores only,
  no underscore at either end and no two underscores in a row; \<open>toSnakeCase\<close> returns
  such a key as it is. So the snake-case format is idempotent, on keys and on nested
  values.
\<close>

lemma letters_length: "length upperLetters = length lowerLetters"
  by (simp add: upperLetters_def lowerLetters_def)

lemma letters_disjoint: "isUpper c \<Longrightarrow> \<not> isLower c"
  by (auto simp: isUpper_def isLower_def upperLetters_def lowerLetters_def)

lemma toLowerChar_not_upper: "\<not> isUpper c \<Longrightarrow> toLowerChar c = c"
proof -
  assume "\<not> isUpper c"
  then have "map_of (zip upperLetters lowerLetters) c = None"
    using map_of_zip_is_None [OF letters_length, of c] by (simp add: isUpper_def)
  then show ?thesis by (simp add: toLowerChar_def)
qed

lemma toLowerChar_upper: "isUpper c \<Longrightarrow> isLower (toLowerChar c)"
proof -
  assume "isUpper c"
  then have "map_of (zip upperLetters lowerLetters) c \<noteq> None"
    using map_of_zip_is_None [OF letters_length, of c] by (simp add: isUpper_def)
  then obtain l where l: "map_of (zip upperLetters lowerLetters) c = Some l"
    by blast
  then have "(c, l) \<in> set (zip upperLetters lowerLetters)"
    by (rule map_of_SomeD)
  then have "l \<in> set lowerLetters"
    by (rule set_zip_rightD)
  with l show ?thesis by (simp add: toLowerChar_def isLower_def)
qed

lemma snakeChar_not_upper: "isSnakeChar c \<Longrightarrow> \<not> isUpper c"
  by (auto simp: isSnakeChar_def isUpper_def isLower_def upperLetters_def lowerLetters_def)

lemma snakeChar_not_separator:
  "isSnakeChar c \<Longrightarrow> \<not> (isSpace c \<or> c = CHR ''-'' \<or> c = CHR ''.'')"
  by (auto simp: isSnakeChar_def isSpace_def isLower_def lowerLetters_def)

lemma snakeChar_alnum: "isSnakeChar c \<Longrightarrow> isAlnumUnderscore c"
  by (auto simp: isSnakeChar_def isAlnumUnderscore_def)

lemma toLowerChar_snakeChar: "isAlnumUnderscore c \<Longrightarrow> isSnakeChar (toLowerChar c)"
proof (cases "isUpper c")
  case True
  then show ?thesis by (simp add: toLowerChar_upper isSnakeChar_def)
next
  case False
  assume "isAlnumUnderscore c"
  with False show ?thesis
    by (auto simp: toLowerChar_not_upper isSnakeChar_def isAlnumUnderscore_def)
qed

lemma separateLowerUpper_id:
  "\<forall>c \<in> set s. \<not> isUpper c \<Longrightarrow> separateLowerUpper sep s = s"
  by (induction sep s rule: separateLowerUpper.induct) auto

lemma underscoreUpperRun_id:
  "\<forall>c \<in> set s. \<not> isUpper c \<Longrightarrow> underscoreUpperRun s = s"
  by (induction s) (simp_all add: underscoreUpperRun.simps)

lemma replaceRuns_id:
  "\<forall>c \<in> set s. \<not> cls c \<Longrightarrow> replaceRuns cls r s = s"
  by (induction s) (simp_all add: replaceRuns.simps)

lemma toLowerCase_id:
  "\<forall>c \<in> set s. \<not> isUpper c \<Longrightarrow> toLowerCase s = s"
  by (simp add: toLowerCase_def toLowerChar_not_upper map_idI)


text \<open>Collapsing runs of underscores and stripping underscores at both ends.\<close>

lemma collapse_Cons:
  "replaceRuns isUnderscore ''_'' (c # cs) =
     (if c = CHR ''_'' then CHR ''_'' # replaceRuns isUnderscore ''_'' (dropWhile isUnderscore cs)
      else c # replaceRuns isUnderscore ''_'' cs)"
  by (simp add: replaceRuns.simps isUnderscore_def)

lemma collapse_Nil: "replaceRuns isUnderscore ''_'' [] = []"
  by (simp add: replaceRuns.simps)

lemma collapse_set: "set (replaceRuns isUnderscore ''_'' s) \<subseteq> set s"
proof (induction s rule: length_induct)
  case (1 s)
  show ?case
  proof (cases s)
    case Nil
    then show ?thesis by (simp add: collapse_Nil)
  next
    case (Cons c cs)
    have "length (dropWhile isUnderscore cs) < length s"
      using length_dropWhile_le [of isUnderscore cs] Cons by simp
    with 1 have a: "set (replaceRuns isUnderscore ''_'' (dropWhile isUnderscore cs))
                     \<subseteq> set (dropWhile isUnderscore cs)"
      by blast
    have b: "set (replaceRuns isUnderscore ''_'' cs) \<subseteq> set cs"
      using 1 Cons by simp
    have "set (dropWhile isUnderscore cs) \<subseteq> set cs"
      by (auto dest: set_dropWhileD)
    with a b Cons show ?thesis
      by (auto simp: collapse_Cons)
  qed
qed

lemma collapse_head:
  "s \<noteq> [] \<Longrightarrow> hd s \<noteq> CHR ''_'' \<Longrightarrow>
   replaceRuns isUnderscore ''_'' s \<noteq> [] \<and> hd (replaceRuns isUnderscore ''_'' s) = hd s"
  by (cases s) (simp_all add: collapse_Cons)

lemma dropWhile_head_id: "s = [] \<or> \<not> P (hd s) \<Longrightarrow> dropWhile P s = s"
  by (cases s) auto

lemma dropWhile_result_head: "dropWhile P s = [] \<or> \<not> P (hd (dropWhile P s))"
  using hd_dropWhile [of P s] by blast

lemma collapse_idem:
  "replaceRuns isUnderscore ''_'' (replaceRuns isUnderscore ''_'' s)
     = replaceRuns isUnderscore ''_'' s"
proof (induction s rule: length_induct)
  case (1 s)
  show ?case
  proof (cases s)
    case Nil
    then show ?thesis by (simp add: collapse_Nil)
  next
    case (Cons c cs)
    show ?thesis
    proof (cases "c = CHR ''_''")
      case False
      with 1 Cons show ?thesis by (simp add: collapse_Cons)
    next
      case True
      let ?d = "dropWhile isUnderscore cs"
      have len: "length ?d < length s"
        using length_dropWhile_le [of isUnderscore cs] Cons by simp
      have IH: "replaceRuns isUnderscore ''_'' (replaceRuns isUnderscore ''_'' ?d)
                  = replaceRuns isUnderscore ''_'' ?d"
        using 1 len by blast
      have dh: "?d = [] \<or> hd ?d \<noteq> CHR ''_''"
        using dropWhile_result_head [of isUnderscore cs] by (simp add: isUnderscore_def)
      have "replaceRuns isUnderscore ''_'' ?d = [] \<or>
            hd (replaceRuns isUnderscore ''_'' ?d) \<noteq> CHR ''_''"
      proof (cases "?d = []")
        case True
        then show ?thesis by (simp only: collapse_Nil simp_thms)
      next
        case False
        with dh have "hd ?d \<noteq> CHR ''_''" by blast
        from collapse_head [OF False this] this show ?thesis by simp
      qed
      then have "dropWhile isUnderscore (replaceRuns isUnderscore ''_'' ?d)
                   = replaceRuns isUnderscore ''_'' ?d"
        by (intro dropWhile_head_id) (simp add: isUnderscore_def)
      with IH True Cons show ?thesis
        by (simp add: collapse_Cons)
    qed
  qed
qed

lemma dropWhile_last:
  "dropWhile P xs \<noteq> [] \<Longrightarrow> last (dropWhile P xs) = last xs"
proof -
  assume ne: "dropWhile P xs \<noteq> []"
  have "last xs = last (takeWhile P xs @ dropWhile P xs)" by simp
  also have "\<dots> = last (dropWhile P xs)" using ne by (simp only: last_append if_False)
  finally show ?thesis by simp
qed

lemma collapse_last:
  "s \<noteq> [] \<Longrightarrow> last s \<noteq> CHR ''_'' \<Longrightarrow>
   replaceRuns isUnderscore ''_'' s \<noteq> [] \<and> last (replaceRuns isUnderscore ''_'' s) = last s"
proof (induction s rule: length_induct)
  case (1 s)
  from "1.prems" obtain c cs where s: "s = c # cs" by (cases s) auto
  show ?case
  proof (cases "cs = []")
    case True
    with s "1.prems" show ?thesis by (simp add: collapse_Cons collapse_Nil)
  next
    case False
    then have l: "last cs \<noteq> CHR ''_''" using s "1.prems" by simp
    show ?thesis
    proof (cases "c = CHR ''_''")
      case cu: False
      have "replaceRuns isUnderscore ''_'' cs \<noteq> [] \<and>
            last (replaceRuns isUnderscore ''_'' cs) = last cs"
        using "1.IH" s False l by simp
      with cu s False show ?thesis by (simp add: collapse_Cons)
    next
      case cu: True
      let ?d = "dropWhile isUnderscore cs"
      have "\<not> isUnderscore (last cs)" using l by (simp add: isUnderscore_def)
      then have dne: "?d \<noteq> []"
        using False by (metis dropWhile_eq_Nil_conv last_in_set)
      then have dl: "last ?d = last cs" by (rule dropWhile_last)
      have len: "length ?d < length s"
        using length_dropWhile_le [of isUnderscore cs] s by simp
      have "replaceRuns isUnderscore ''_'' ?d \<noteq> [] \<and>
            last (replaceRuns isUnderscore ''_'' ?d) = last ?d"
        using "1.IH" len dne dl l by simp
      with cu s False dl show ?thesis by (simp add: collapse_Cons)
    qed
  qed
qed

lemma stripUnderscores_id:
  "s = [] \<or> (hd s \<noteq> CHR ''_'' \<and> last s \<noteq> CHR ''_'') \<Longrightarrow> stripUnderscores s = s"
proof (cases "s = []")
  case True
  then show ?thesis by (simp add: stripUnderscores_def)
next
  case False
  assume "s = [] \<or> (hd s \<noteq> CHR ''_'' \<and> last s \<noteq> CHR ''_'')"
  with False have h: "hd s \<noteq> CHR ''_''" "last s \<noteq> CHR ''_''" by auto
  have a: "dropWhile isUnderscore s = s"
    using h(1) by (intro dropWhile_head_id) (simp add: isUnderscore_def)
  have "hd (rev s) = last s" using False by (simp add: hd_rev)
  then have b: "dropWhile isUnderscore (rev s) = rev s"
    using h(2) by (intro dropWhile_head_id) (simp add: isUnderscore_def)
  show ?thesis by (simp add: stripUnderscores_def a b)
qed

lemma stripUnderscores_ends:
  "stripUnderscores s = [] \<or>
   (hd (stripUnderscores s) \<noteq> CHR ''_'' \<and> last (stripUnderscores s) \<noteq> CHR ''_'')"
proof (cases "stripUnderscores s = []")
  case True
  then show ?thesis by simp
next
  case False
  let ?d = "dropWhile isUnderscore s"
  let ?e = "dropWhile isUnderscore (rev ?d)"
  have t: "stripUnderscores s = rev ?e" by (simp add: stripUnderscores_def)
  with False have ene: "?e \<noteq> []" by simp
  have "\<not> isUnderscore (hd ?e)"
    using dropWhile_result_head [of isUnderscore "rev ?d"] ene by blast
  then have l: "last (stripUnderscores s) \<noteq> CHR ''_''"
    using t ene by (simp add: last_rev isUnderscore_def)
  have "rev (takeWhile isUnderscore (rev ?d) @ ?e) = rev (rev ?d)"
    by (simp only: takeWhile_dropWhile_id)
  then have "rev ?e @ rev (takeWhile isUnderscore (rev ?d)) = ?d"
    by (simp only: rev_append rev_rev_ident)
  then have d: "?d = rev ?e @ rev (takeWhile isUnderscore (rev ?d))" by (rule sym)
  then have dne: "?d \<noteq> []" using ene by (metis Nil_is_append_conv rev_is_Nil_conv)
  have "hd ?d = hd (rev ?e)"
    using d ene by (metis hd_append2 rev_is_Nil_conv)
  moreover have "\<not> isUnderscore (hd ?d)"
    using dropWhile_result_head [of isUnderscore s] dne by blast
  ultimately have h: "hd (stripUnderscores s) \<noteq> CHR ''_''"
    using t by (simp add: isUnderscore_def)
  from h l show ?thesis by simp
qed

lemma stripUnderscores_set: "set (stripUnderscores s) \<subseteq> set s"
  by (auto simp: stripUnderscores_def dest!: set_dropWhileD)

lemma toSnakeCase_shape:
  "toSnakeCase str =
     (if str = [] then []
      else replaceRuns isUnderscore ''_''
             (stripUnderscores
                (toLowerCase
                   (filter isAlnumUnderscore
                      (replaceRuns (\<lambda>c. isSpace c \<or> c = CHR ''-'' \<or> c = CHR ''.'') ''_''
                         (underscoreUpperRun (separateLowerUpper CHR ''_'' str)))))))"
  by (simp add: toSnakeCase_def Let_def)

lemma if_Nil_id: "(if x = [] then [] else x) = x"
  by simp

lemma toSnakeCase_idempotent: "toSnakeCase (toSnakeCase str) = toSnakeCase str"
proof (cases "str = []")
  case True
  then show ?thesis by (simp add: toSnakeCase_def)
next
  case False
  let ?s5 = "toLowerCase
                   (filter isAlnumUnderscore
                      (replaceRuns (\<lambda>c. isSpace c \<or> c = CHR ''-'' \<or> c = CHR ''.'') ''_''
                         (underscoreUpperRun (separateLowerUpper CHR ''_'' str))))"
  let ?s6 = "stripUnderscores ?s5"
  let ?t = "replaceRuns isUnderscore ''_'' ?s6"
  have t: "toSnakeCase str = ?t"
    using False by (simp add: toSnakeCase_shape)
  have s5: "\<forall>c \<in> set ?s5. isSnakeChar c"
    by (auto simp: toLowerCase_def toLowerChar_snakeChar)
  have chars: "\<forall>c \<in> set ?t. isSnakeChar c"
    using s5 collapse_set [of ?s6] stripUnderscores_set [of ?s5] by blast
  have ends: "?t = [] \<or> (hd ?t \<noteq> CHR ''_'' \<and> last ?t \<noteq> CHR ''_'')"
  proof (cases "?s6 = []")
    case True
    then show ?thesis by (simp add: collapse_Nil)
  next
    case False
    with stripUnderscores_ends [of ?s5]
    have "hd ?s6 \<noteq> CHR ''_''" "last ?s6 \<noteq> CHR ''_''" by auto
    with False collapse_head [of ?s6] collapse_last [of ?s6] show ?thesis by simp
  qed
  have nu: "\<forall>c \<in> set ?t. \<not> isUpper c"
    using chars snakeChar_not_upper by blast
  have ns: "\<forall>c \<in> set ?t. \<not> (isSpace c \<or> c = CHR ''-'' \<or> c = CHR ''.'')"
    using chars snakeChar_not_separator by blast
  have al: "filter isAlnumUnderscore ?t = ?t"
    using chars snakeChar_alnum by (simp add: filter_id_conv)
  have "toSnakeCase ?t = (if ?t = [] then [] else ?t)"
    unfolding toSnakeCase_shape [of ?t]
    by (simp only: separateLowerUpper_id [OF nu] underscoreUpperRun_id [OF nu]
          replaceRuns_id [OF ns] al toLowerCase_id [OF nu] stripUnderscores_id [OF ends]
          collapse_idem)
  also have "\<dots> = ?t" by (rule if_Nil_id)
  finally show ?thesis by (simp only: t)
qed


text \<open>From keys to nested values.\<close>

lemma transformItems_map:
  "transformItems xs c = map (\<lambda>x. transformObjectKeys x c) xs"
  by (induction xs) simp_all

lemma assign_new: "k \<notin> fst ` set es \<Longrightarrow> assign k v es = es @ [(k, v)]"
  by (induction es) auto

lemma assign_keys:
  "fst ` set (assign k v es) = insert k (fst ` set es)"
proof (induction es)
  case Nil
  then show ?case by simp
next
  case (Cons e es)
  obtain k' w where e: "e = (k', w)" by (cases e)
  show ?case
  proof (cases "k' = k")
    case True
    with e show ?thesis by simp
  next
    case False
    with e Cons.IH show ?thesis by (simp add: insert_commute)
  qed
qed

lemma assign_distinct:
  "distinct (map fst es) \<Longrightarrow> distinct (map fst (assign k v es))"
proof (induction es)
  case Nil
  then show ?case by simp
next
  case (Cons e es)
  obtain k' w where e: "e = (k', w)" by (cases e)
  show ?case
  proof (cases "k' = k")
    case True
    with Cons.prems e show ?thesis by simp
  next
    case False
    have "k' \<notin> fst ` set (assign k v es)"
      using Cons.prems e False by (simp add: assign_keys)
    with Cons e False show ?thesis by simp
  qed
qed

lemma assign_values: "snd ` set (assign k v es) \<subseteq> insert v (snd ` set es)"
proof (induction es)
  case Nil
  then show ?case by simp
next
  case (Cons e es)
  obtain k' w where e: "e = (k', w)" by (cases e)
  show ?case
  proof (cases "k' = k")
    case True
    with e show ?thesis by auto
  next
    case False
    with e Cons.IH show ?thesis by auto
  qed
qed

lemma transformEntries_snakeObject:
  "snakeObject acc \<Longrightarrow>
   \<forall>v \<in> snd ` set es.
      transformObjectKeys (transformObjectKeys v snake_case) snake_case
        = transformObjectKeys v snake_case \<Longrightarrow>
   snakeObject (transformEntries es snake_case acc)"
proof (induction es arbitrary: acc)
  case Nil
  then show ?case by simp
next
  case (Cons e es)
  obtain k v where e: "e = (k, v)" by (cases e)
  let ?acc = "assign (toSnakeCase k) (transformObjectKeys v snake_case) acc"
  have v: "transformObjectKeys (transformObjectKeys v snake_case) snake_case
             = transformObjectKeys v snake_case"
    using Cons.prems(2) e by simp
  have "snakeObject ?acc"
    unfolding snakeObject_def
  proof (intro conjI)
    show "distinct (map fst ?acc)"
      using Cons.prems(1) by (simp add: snakeObject_def assign_distinct)
    show "\<forall>k \<in> fst ` set ?acc. toSnakeCase k = k"
      using Cons.prems(1) by (auto simp: snakeObject_def assign_keys toSnakeCase_idempotent)
    show "\<forall>v \<in> snd ` set ?acc. transformObjectKeys v snake_case = v"
    proof
      fix w assume "w \<in> snd ` set ?acc"
      then have "w = transformObjectKeys v snake_case \<or> w \<in> snd ` set acc"
        using assign_values [of "toSnakeCase k" "transformObjectKeys v snake_case" acc] by blast
      then show "transformObjectKeys w snake_case = w"
        using Cons.prems(1) v unfolding snakeObject_def by blast
    qed
  qed
  moreover have "\<forall>v \<in> snd ` set es.
      transformObjectKeys (transformObjectKeys v snake_case) snake_case
        = transformObjectKeys v snake_case"
    using Cons.prems(2) by simp
  ultimately have "snakeObject (transformEntries es snake_case ?acc)"
    by (rule Cons.IH)
  then show ?case by (simp add: e Let_def)
qed

lemma transformEntries_fixed:
  "snakeObject es \<Longrightarrow> fst ` set es \<inter> fst ` set acc = {} \<Longrightarrow>
   transformEntries es snake_case acc = acc @ es"
proof (induction es arbitrary: acc)
  case Nil
  then show ?case by simp
next
  case (Cons e es)
  obtain k v where e: "e = (k, v)" by (cases e)
  from Cons.prems(1) e have k: "toSnakeCase k = k" and v: "transformObjectKeys v snake_case = v"
    and d: "k \<notin> fst ` set es" and rest: "snakeObject es"
    by (auto simp: snakeObject_def)
  have knew: "k \<notin> fst ` set acc" using Cons.prems(2) e by auto
  have "fst ` set es \<inter> fst ` set (acc @ [(k, v)]) = {}"
    using Cons.prems(2) d by auto
  from Cons.IH [OF rest this] show ?case
    by (simp add: e Let_def k v assign_new [OF knew])
qed

lemma transformObjectKeys_snake_case_idempotent:
  "transformObjectKeys (transformObjectKeys x snake_case) snake_case
     = transformObjectKeys x snake_case"
proof (induction x)
  case (Obj es)
  have vals: "\<forall>v \<in> snd ` set es.
      transformObjectKeys (transformObjectKeys v snake_case) snake_case
        = transformObjectKeys v snake_case"
  proof
    fix v assume "v \<in> snd ` set es"
    then obtain e where "e \<in> set es" "v \<in> Basic_BNFs.snds e"
      by (auto simp: prod_set_simps)
    then show "transformObjectKeys (transformObjectKeys v snake_case) snake_case
        = transformObjectKeys v snake_case"
      by (rule Obj.IH)
  qed
  have "snakeObject []" by (simp add: snakeObject_def)
  from transformEntries_snakeObject [OF this vals]
  have "snakeObject (transformEntries es snake_case [])" .
  from transformEntries_fixed [OF this, of "[]"] show ?case by simp
next
  case (Arr xs)
  then show ?case by (simp add: transformItems_map)
next
  case (Leaf v)
  then show ?case by simp
qed

text \<open>
  Claim C7 at the input \<open>{first_name: "John"}\<close> with the format \<open>camelCase\<close>: the first
  application gives the key \<open>firstName\<close>, the second gives \<open>firstname\<close>, because
  \<open>toCamelCase\<close> lowercases its whole input before it looks for word boundaries. Two
  applications differ from one. (For the format \<open>snake_case\<close> two applications are one:
  \<open>transformObjectKeys_snake_case_idempotent\<close> above.)
\<close>

theorem transformObjectKeys_camelCase_twice:
  "transformObjectKeys (Obj [(''first_name'', Leaf (JStr ''John''))]) camelCase
     = Obj [(''firstName'', Leaf (JStr ''John''))] \<and>
   transformObjectKeys
       (transformObjectKeys (Obj [(''first_name'', Leaf (JStr ''John''))]) camelCase) camelCase
     = Obj [(''firstname'', Leaf (JStr ''John''))] \<and>
   toCamelCase ''firstName'' = ''firstname'' \<and>
   toCamelCase ''PascalCase'' = ''pascalcase'' \<and>
   toSnakeCase ''firstName'' = ''first_name''"
  by code_simp

section \<open>Properties of the parsers\<close>

lemma elemAt_None_iff: "elemAt xs i = None \<longleftrightarrow> length xs \<le> i"
  by (simp add: elemAt_def)

lemma assignParts_not_Inl: "assignParts parts result \<noteq> Inl e"
proof -
  consider "length parts = 0" | "length parts = 1" | "length parts = 2" | "3 \<le> length parts"
    by linarith
  then show ?thesis
    by cases (auto simp: assignParts_def elemAt_None_iff split: option.splits)
qed

lemma suffixLoop_not_Inl: "suffixLoop parts sfx \<noteq> Inl e"
proof (induction parts sfx rule: suffixLoop.induct)
  case (1 parts sfx)
  show ?case
  proof (cases "length parts > 1")
    case False
    then show ?thesis by (simp add: suffixLoop.simps [of parts sfx])
  next
    case True
    then obtain l where e: "elemAt parts (length parts - 1) = Some l"
      by (cases "elemAt parts (length parts - 1)") (auto simp: elemAt_None_iff)
    show ?thesis
      using True e "1.IH" [OF True e refl]
      by (auto simp: suffixLoop.simps [of parts sfx] Let_def)
  qed
qed

lemma extractPrefix_not_Inl: "extractPrefix parts result \<noteq> Inl e"
  by (auto simp: extractPrefix_def elemAt_None_iff Let_def split: option.splits)

lemma stateFromCity_not_Inl: "stateFromCity result \<noteq> Inl e"
  by (auto simp: stateFromCity_def elemAt_None_iff Let_def split: option.splits)

lemma parseName_not_Inl: "parseName v \<noteq> Inl e"
  by (cases v)
    (auto simp: Let_def extractPrefix_not_Inl suffixLoop_not_Inl assignParts_not_Inl
          split: sum.splits prod.splits)

lemma parseUsername_not_Inl: "parseUsername v \<noteq> Inl e"
  by (cases v)
    (auto simp: Let_def assignParts_not_Inl split: sum.splits)

lemma parseAddress_not_Inl: "parseAddress v \<noteq> Inl e"
proof (cases v)
  case (JStr address)
  show ?thesis
  proof (cases "address = []")
    case True
    with JStr show ?thesis by simp
  next
    case False
    obtain result normalized where ep:
      "extractPostalCode (emptyAddress\<lparr>original' := orEmpty (JStr address)\<rparr>)
         (replaceRuns isSpace '' '' (trim address)) = (result, normalized)"
      by (cases "extractPostalCode (emptyAddress\<lparr>original' := orEmpty (JStr address)\<rparr>)
         (replaceRuns isSpace '' '' (trim address))")
    show ?thesis
      using False JStr ep
      by (auto simp: Let_def elemAt_None_iff stateFromCity_not_Inl
            split: sum.splits option.splits)
  qed
qed simp_all

text \<open>The default objects: what each parser returns for an input that is not a string,
  and for the empty string.\<close>

lemma parsers_default:
  "\<not> isNonEmptyString v \<Longrightarrow>
     parseName v = Inr emptyName \<and>
     parseUsername v = Inr (emptyName\<lparr>full := orEmpty v\<rparr>) \<and>
     parsePhoneNumber v defaultCountryCode = emptyPhoneNumber\<lparr>original := orEmpty v\<rparr> \<and>
     parseAddress v = Inr (emptyAddress\<lparr>original' := orEmpty v\<rparr>)"
  by (cases v) (simp_all add: emptyPhoneNumber_def Let_def)

text \<open>
  Claim C6, as the code has it. \<open>parseName\<close>, \<open>parseUsername\<close> and \<open>parseAddress\<close> return
  a value for every input: no read of an array element that a method is called on is
  outside its array, so no \<open>TypeError\<close> branch is reached (\<open>parsePhoneNumber\<close> has no
  such read, and its model no error branch). For an input that is not a string and for
  the empty string each of the four returns its default object: every field empty or
  false, but for the field that echoes the input (\<open>full\<close> of \<open>parseUsername\<close>, \<open>original\<close>
  of \<open>parsePhoneNumber\<close> and \<open>parseAddress\<close>), which is \<open>input || ''\<close>.
\<close>

theorem parsers_never_throw:
  "(\<exists>r. parseName v = Inr r) \<and> (\<exists>r. parseUsername v = Inr r) \<and>
   (\<exists>r. parseAddress v = Inr r) \<and>
   (\<not> isNonEmptyString v \<longrightarrow>
      parseName v = Inr emptyName \<and>
      parseUsername v = Inr (emptyName\<lparr>full := orEmpty v\<rparr>) \<and>
      parsePhoneNumber v defaultCountryCode = emptyPhoneNumber\<lparr>original := orEmpty v\<rparr> \<and>
      parseAddress v = Inr (emptyAddress\<lparr>original' := orEmpty v\<rparr>))"
proof -
  have "\<exists>r. parseName v = Inr r"
    using parseName_not_Inl [of v] by (cases "parseName v") auto
  moreover have "\<exists>r. parseUsername v = Inr r"
    using parseUsername_not_Inl [of v] by (cases "parseUsername v") auto
  moreover have "\<exists>r. parseAddress v = Inr r"
    using parseAddress_not_Inl [of v] by (cases "parseAddress v") auto
  ultimately show ?thesis
    using parsers_default [of v defaultCountryCode] by blast
qed

theorem parsers_never_throw_witness:
  "parseName JNull = Inr emptyName \<and> parseUsername JNull = Inr emptyName \<and>
   parsePhoneNumber JNull ''1'' = emptyPhoneNumber \<and> parseAddress JNull = Inr emptyAddress \<and>
   (\<exists>r. parseName (JStr ''Dr. John Smith Jr.'') = Inr r)"
  using parsers_never_throw [of JNull "''1''"] parsers_never_throw [of "JStr ''Dr. John Smith Jr.''" "''1''"]
  by (simp add: orEmpty_def emptyName_def emptyPhoneNumber_def emptyAddress_def)

text \<open>
  Claim C6 as stated fails in the part on the value returned: for the number 42,
  \<open>parseUsername\<close> returns an object whose \<open>full\<close> is 42, not the all-empty object; and
  for the string \<open>call ext 5\<close>, which has no phone number in it, \<open>parsePhoneNumber\<close>
  returns an object with the extension 5.
\<close>

theorem parsers_all_empty_counterexample:
  "parseUsername (JOther True ''42'') = Inr (emptyName\<lparr>full := JOther True ''42''\<rparr>) \<and>
   parseUsername (JOther True ''42'') \<noteq> Inr emptyName \<and>
   parsePhoneNumber (JStr ''call ext 5'') ''1''
     = emptyPhoneNumber\<lparr>original := JStr ''call ext 5'', extension := ''5''\<rparr> \<and>
   parsePhoneNumber (JStr ''call ext 5'') ''1'' \<noteq> emptyPhoneNumber"
proof -
  have e: "extractExtension ''call ext 5'' = (''5'', ''call'')"
    by code_simp
  show ?thesis
    by (simp add: orEmpty_def emptyName_def emptyPhoneNumber_def e Let_def)
qed

end
